theory Spec2Isabelle
  imports Main "HOL-Library.Word"
begin

section \<open>Data model\<close>

text \<open>
  Shallow embedding of \<^verbatim>\<open>Init/Lean/Meta/Tactic/Intro.c\<close>, the compiled
  hypothesis-introduction tactic (\<^verbatim>\<open>introN\<close>, \<^verbatim>\<open>intro\<close>, \<^verbatim>\<open>intro1\<close>).
  Reference counting (\<^verbatim>\<open>lean_inc\<close>, \<^verbatim>\<open>lean_dec\<close>, the
  \<^verbatim>\<open>lean_is_exclusive\<close> branches that only choose between updating an object in
  place and copying it) has no effect on values and is left out; every other branch of the
  C code is a branch of the model.
\<close>

datatype Name = anonymous | str Name string | num Name nat

type_synonym FVarId = Name
type_synonym MVarId = Name

text \<open>
  Expressions. The C code tests the constructor tag: 7 is \<^verbatim>\<open>forallE\<close> (fields
  binder name, domain, body, and a packed 64-bit data word), 8 is \<^verbatim>\<open>letE\<close> (fields
  name, type, value, body). All other tags take the default branch.
\<close>

datatype Expr =
    bvar nat
  | fvar FVarId
  | mvar MVarId
  | sortE nat
  | constE Name
  | app Expr Expr
  | lam Name Expr Expr "64 word"
  | forallE Name Expr Expr "64 word"
  | letE Name Expr Expr Expr

datatype LocalDecl =
    cdecl nat FVarId Name Expr "8 word"
  | ldecl nat FVarId Name Expr Expr

type_synonym LocalContext = "LocalDecl list"

record LocalInstance =
  className :: Name
  instFVar :: Expr

type_synonym LocalInstances = "LocalInstance list"

record MetavarDecl =
  userName :: Name
  mdecl_lctx :: LocalContext
  mdecl_type :: Expr
  mdecl_depth :: nat
  mdecl_localInstances :: LocalInstances
  mdecl_kind :: nat

record MetavarContext =
  decls :: "MVarId \<rightharpoonup> MetavarDecl"
  eAssignment :: "MVarId \<rightharpoonup> Expr"

type_synonym SynthInstanceCache = "(Expr \<times> Expr option) list"

record Cache =
  inferType :: nat
  funInfo :: nat
  synthInstance :: SynthInstanceCache

record NameGenerator =
  namePrefix :: Name
  idx :: nat

text \<open>The reader context (5 fields in the C code; field 1 is the local context, field 2
  the local instances) and the threaded state (6 fields; field 1 is the metavariable
  context, field 2 the cache, field 3 the name generator).\<close>

record Context =
  config :: nat
  lctx :: LocalContext
  localInstances :: LocalInstances
  ctx_field3 :: nat
  ctx_field4 :: nat

record State =
  env :: nat
  mctx :: MetavarContext
  cache :: Cache
  ngen :: NameGenerator
  traceState :: "nat list"
  postponed :: nat

datatype Exception =
    AlreadyAssigned Name MVarId
  | MVarTypeUnavailable MVarId
  | unknownFVar FVarId
  | tacticFailure Name MVarId string
  | oracleFailure nat

text \<open>\<^verbatim>\<open>EStateM.Result\<close>: constructor tag 0 is success, tag 1 is failure; both carry
  the state.\<close>

datatype 'a Result = ok 'a State | error Exception State

datatype LOption = lnone | lsome Name | lundef

text \<open>
  The external collaborators the C code calls and this file does not define. Each is a
  parameter of the model, with the calling convention the C code uses: \<^verbatim>\<open>whnf\<close>,
  \<^verbatim>\<open>isClassQuick\<close>, \<^verbatim>\<open>isClassExpensive\<close> and \<^verbatim>\<open>mkLambda\<close> take the
  context and the state and return a \<^verbatim>\<open>Result\<close> whose tag the C code checks;
  \<^verbatim>\<open>lean_local_ctx_get_unused_name\<close> and \<^verbatim>\<open>LocalInstance.beq\<close> are pure.
\<close>

record Oracles =
  whnf :: "Expr \<Rightarrow> Context \<Rightarrow> State \<Rightarrow> Expr Result"
  isClassQuick :: "Expr \<Rightarrow> Context \<Rightarrow> State \<Rightarrow> LOption Result"
  isClassExpensive :: "Expr \<Rightarrow> Context \<Rightarrow> State \<Rightarrow> Name option Result"
  mkLambda :: "Expr list \<Rightarrow> Expr \<Rightarrow> Context \<Rightarrow> State \<Rightarrow> Expr Result"
  getUnusedName :: "LocalContext \<Rightarrow> Name \<Rightarrow> Name"
  LocalInstance_beq :: "LocalInstance \<Rightarrow> LocalInstance \<Rightarrow> bool"

section \<open>Primitives declared outside the file\<close>

text \<open>Modelled from the spec: \<^verbatim>\<open>lean_expr_instantiate_rev_range\<close> is declared but not
  defined in this file. The spec describes it as "substitute bound variables in range
  [lo, hi) using an ordered array of replacement terms": loose bound variable \<open>i\<close> is
  replaced by the \<open>i\<close>-th replacement counted from the end of the slice, and the loose
  bound variables beyond the slice are shifted down.\<close>

fun liftLooseBVars :: "Expr \<Rightarrow> nat \<Rightarrow> nat \<Rightarrow> Expr" where
  "liftLooseBVars (bvar i) s d = (if i < s then bvar i else bvar (i + d))"
| "liftLooseBVars (fvar x) s d = fvar x"
| "liftLooseBVars (mvar m) s d = mvar m"
| "liftLooseBVars (sortE u) s d = sortE u"
| "liftLooseBVars (constE c) s d = constE c"
| "liftLooseBVars (app f a) s d = app (liftLooseBVars f s d) (liftLooseBVars a s d)"
| "liftLooseBVars (lam n t b dat) s d =
     lam n (liftLooseBVars t s d) (liftLooseBVars b (Suc s) d) dat"
| "liftLooseBVars (forallE n t b dat) s d =
     forallE n (liftLooseBVars t s d) (liftLooseBVars b (Suc s) d) dat"
| "liftLooseBVars (letE n t v b) s d =
     letE n (liftLooseBVars t s d) (liftLooseBVars v s d) (liftLooseBVars b (Suc s) d)"

fun instantiateRevAux :: "Expr list \<Rightarrow> nat \<Rightarrow> Expr \<Rightarrow> Expr" where
  "instantiateRevAux subst offset (bvar i) =
     (if i < offset then bvar i
      else if i < offset + length subst
        then liftLooseBVars (subst ! (length subst - (i - offset) - 1)) 0 offset
      else bvar (i - length subst))"
| "instantiateRevAux subst offset (fvar x) = fvar x"
| "instantiateRevAux subst offset (mvar m) = mvar m"
| "instantiateRevAux subst offset (sortE u) = sortE u"
| "instantiateRevAux subst offset (constE c) = constE c"
| "instantiateRevAux subst offset (app f a) =
     app (instantiateRevAux subst offset f) (instantiateRevAux subst offset a)"
| "instantiateRevAux subst offset (lam n t b dat) =
     lam n (instantiateRevAux subst offset t) (instantiateRevAux subst (Suc offset) b) dat"
| "instantiateRevAux subst offset (forallE n t b dat) =
     forallE n (instantiateRevAux subst offset t) (instantiateRevAux subst (Suc offset) b) dat"
| "instantiateRevAux subst offset (letE n t v b) =
     letE n (instantiateRevAux subst offset t) (instantiateRevAux subst offset v)
       (instantiateRevAux subst (Suc offset) b)"

definition instantiateRevRange :: "Expr \<Rightarrow> nat \<Rightarrow> nat \<Rightarrow> Expr list \<Rightarrow> Expr" where
  "instantiateRevRange e beg en subst =
     instantiateRevAux (take (en - beg) (drop beg subst)) 0 e"

text \<open>Modelled from the spec: a local context is an ordered sequence of declarations,
  extended by appending (\<^verbatim>\<open>lean_local_ctx_mk_local_decl\<close>,
  \<^verbatim>\<open>lean_local_ctx_mk_let_decl\<close>); a lookup by \<^verbatim>\<open>FVarId\<close> finds the declaration
  added last under that identifier.\<close>

definition mk_local_decl ::
    "LocalContext \<Rightarrow> FVarId \<Rightarrow> Name \<Rightarrow> Expr \<Rightarrow> 8 word \<Rightarrow> LocalContext" where
  "mk_local_decl lc fvarId uname ty bi = lc @ [cdecl (length lc) fvarId uname ty bi]"

definition mk_let_decl ::
    "LocalContext \<Rightarrow> FVarId \<Rightarrow> Name \<Rightarrow> Expr \<Rightarrow> Expr \<Rightarrow> LocalContext" where
  "mk_let_decl lc fvarId uname ty val = lc @ [ldecl (length lc) fvarId uname ty val]"

fun LocalDecl_fvarId :: "LocalDecl \<Rightarrow> FVarId" where
  "LocalDecl_fvarId (cdecl i x n t bi) = x"
| "LocalDecl_fvarId (ldecl i x n t v) = x"

fun LocalDecl_userName :: "LocalDecl \<Rightarrow> Name" where
  "LocalDecl_userName (cdecl i x n t bi) = n"
| "LocalDecl_userName (ldecl i x n t v) = n"

fun LocalDecl_type :: "LocalDecl \<Rightarrow> Expr" where
  "LocalDecl_type (cdecl i x n t bi) = t"
| "LocalDecl_type (ldecl i x n t v) = t"

definition LocalContext_find :: "LocalContext \<Rightarrow> FVarId \<Rightarrow> LocalDecl option" where
  "LocalContext_find lc x = find (\<lambda>d. LocalDecl_fvarId d = x) (rev lc)"

text \<open>\<^verbatim>\<open>Expr.fvarId!\<close>, \<^verbatim>\<open>Expr.mvarId!\<close>, \<^verbatim>\<open>Expr.isForall\<close>: tag tests and
  projections; on another constructor the projections give the default name.\<close>

fun Expr_fvarId_x21 :: "Expr \<Rightarrow> FVarId" where
  "Expr_fvarId_x21 (fvar x) = x"
| "Expr_fvarId_x21 _ = anonymous"

fun Expr_mvarId_x21 :: "Expr \<Rightarrow> MVarId" where
  "Expr_mvarId_x21 (mvar m) = m"
| "Expr_mvarId_x21 _ = anonymous"

fun Expr_isForall :: "Expr \<Rightarrow> bool" where
  "Expr_isForall (forallE n t b dat) = True"
| "Expr_isForall _ = False"

text \<open>Modelled from the spec: \<^verbatim>\<open>freshId()\<close> mints an identifier that was not minted
  before; the generator is a counter under a fixed prefix.\<close>

definition mkFreshId :: "State \<Rightarrow> Name \<times> State" where
  "mkFreshId s =
     (num (namePrefix (ngen s)) (idx (ngen s)),
      s\<lparr>ngen := (ngen s)\<lparr>idx := Suc (idx (ngen s))\<rparr>\<rparr>)"

text \<open>Modelled from the spec: the metavariable store primitives \<^verbatim>\<open>getDecl\<close>,
  \<^verbatim>\<open>createMVar(type, ctx, tag)\<close>, \<^verbatim>\<open>assign\<close> and \<^verbatim>\<open>checkNotAssigned\<close>.
  A missing declaration raises \<^verbatim>\<open>MVarTypeUnavailable\<close>, an assigned goal raises
  \<^verbatim>\<open>AlreadyAssigned\<close>; the new metavariable takes the local context and the local
  instances of the reader context.\<close>

definition getMVarDecl :: "MVarId \<Rightarrow> Context \<Rightarrow> State \<Rightarrow> MetavarDecl Result" where
  "getMVarDecl mvarId ctx s =
     (case decls (mctx s) mvarId of
        None \<Rightarrow> error (MVarTypeUnavailable mvarId) s
      | Some d \<Rightarrow> ok d s)"

definition getMVarType :: "MVarId \<Rightarrow> Context \<Rightarrow> State \<Rightarrow> Expr Result" where
  "getMVarType mvarId ctx s =
     (case getMVarDecl mvarId ctx s of
        error e s1 \<Rightarrow> error e s1
      | ok d s1 \<Rightarrow> ok (mdecl_type d) s1)"

definition getMVarTag :: "MVarId \<Rightarrow> Context \<Rightarrow> State \<Rightarrow> Name Result" where
  "getMVarTag mvarId ctx s =
     (case getMVarDecl mvarId ctx s of
        error e s1 \<Rightarrow> error e s1
      | ok d s1 \<Rightarrow> ok (userName d) s1)"

definition checkNotAssigned :: "MVarId \<Rightarrow> Name \<Rightarrow> Context \<Rightarrow> State \<Rightarrow> unit Result" where
  "checkNotAssigned mvarId tacticName ctx s =
     (case eAssignment (mctx s) mvarId of
        None \<Rightarrow> ok () s
      | Some v \<Rightarrow> error (AlreadyAssigned tacticName mvarId) s)"

definition mkFreshExprMVar ::
    "Expr \<Rightarrow> Name \<Rightarrow> nat \<Rightarrow> Context \<Rightarrow> State \<Rightarrow> Expr \<times> State" where
  "mkFreshExprMVar ty tag knd ctx s =
     (let mvarId = fst (mkFreshId s);
          s1 = snd (mkFreshId s);
          d = \<lparr>userName = tag, mdecl_lctx = lctx ctx, mdecl_type = ty, mdecl_depth = 0,
               mdecl_localInstances = localInstances ctx, mdecl_kind = knd\<rparr>
      in (mvar mvarId, s1\<lparr>mctx := (mctx s1)\<lparr>decls := (decls (mctx s1))(mvarId \<mapsto> d)\<rparr>\<rparr>))"

definition MetavarContext_assignExpr ::
    "MetavarContext \<Rightarrow> MVarId \<Rightarrow> Expr \<Rightarrow> MetavarContext" where
  "MetavarContext_assignExpr m mvarId v = m\<lparr>eAssignment := (eAssignment m)(mvarId \<mapsto> v)\<rparr>"

definition getFVarLocalDecl :: "Expr \<Rightarrow> Context \<Rightarrow> State \<Rightarrow> LocalDecl Result" where
  "getFVarLocalDecl fv ctx s =
     (case LocalContext_find (lctx ctx) (Expr_fvarId_x21 fv) of
        None \<Rightarrow> error (unknownFVar (Expr_fvarId_x21 fv)) s
      | Some d \<Rightarrow> ok d s)"

definition throwTacticEx ::
    "Name \<Rightarrow> MVarId \<Rightarrow> string \<Rightarrow> Context \<Rightarrow> State \<Rightarrow> 'a Result" where
  "throwTacticEx tacticName mvarId msg ctx s = error (tacticFailure tacticName mvarId msg) s"

text \<open>\<^verbatim>\<open>lean_array_get\<close>: a bounds-checked read that gives the default out of range.\<close>

definition array_get :: "'a \<Rightarrow> 'a list \<Rightarrow> nat \<Rightarrow> 'a" where
  "array_get dflt xs i = (if i < length xs then xs ! i else dflt)"

text \<open>Modelled from the spec: the reserved placeholder name; the string constant
  \<^verbatim>\<open>l_Lean_mkHole___closed__3\<close> is declared outside the file.\<close>

definition mkHole_closed_3 :: string where
  "mkHole_closed_3 = ''_''"

section \<open>The functions of Intro.c\<close>

text \<open>The closed constants: the tactic name \<^verbatim>\<open>`introN\<close> and the message of the
  insufficient-binders failure.\<close>

definition introN_closed_2 :: Name where
  "introN_closed_2 = str anonymous ''introN''"

definition introN_closed_3 :: string where
  "introN_closed_3 = ''insufficient number of binders''"

definition InsufficientBinders :: "MVarId \<Rightarrow> Exception" where
  "InsufficientBinders mvarId = tacticFailure introN_closed_2 mvarId introN_closed_3"

definition mkAuxName_closed_1 :: Name where
  "mkAuxName_closed_1 = str anonymous mkHole_closed_3"

text \<open>The packed binder data: \<^verbatim>\<open>(uint8_t)((x << 24) >> 61)\<close> on a 64-bit word.\<close>

definition binderInfo :: "64 word \<Rightarrow> 8 word" where
  "binderInfo dat = ucast (drop_bit 61 (push_bit 24 dat))"

text \<open>\<^verbatim>\<open>l_Lean_Meta_mkAuxName\<close>.\<close>

definition mkAuxName ::
    "Oracles \<Rightarrow> LocalContext \<Rightarrow> Name \<Rightarrow> Name list \<Rightarrow> Name \<times> Name list" where
  "mkAuxName orc lc binderName names =
     (case names of
        [] \<Rightarrow> (getUnusedName orc lc binderName, names)
      | n # rest \<Rightarrow>
          if n = mkAuxName_closed_1 then (getUnusedName orc lc binderName, rest)
          else (n, rest))"

text \<open>The epilogue of every \<^verbatim>\<open>resettingSynthInstanceCache\<close> block: on success and on
  failure alike the saved memo is written back into field 2 of the cache.\<close>

definition restoreSynthInstance :: "SynthInstanceCache \<Rightarrow> 'a Result \<Rightarrow> 'a Result" where
  "restoreSynthInstance saved r =
     (case r of
        ok a s \<Rightarrow> ok a (s\<lparr>cache := (cache s)\<lparr>synthInstance := saved\<rparr>\<rparr>)
      | error e s \<Rightarrow> error e (s\<lparr>cache := (cache s)\<lparr>synthInstance := saved\<rparr>\<rparr>))"

definition resetSynthInstance :: "State \<Rightarrow> State" where
  "resetSynthInstance s = s\<lparr>cache := (cache s)\<lparr>synthInstance := []\<rparr>\<rparr>"

text \<open>\<^verbatim>\<open>withNewLocalInstances\<close>, of which \<^verbatim>\<open>spec__3\<close> and \<^verbatim>\<open>spec__4\<close> are the
  copies with the continuation \<open>k\<close> fixed. The loop runs over \<open>fvars\<close> from index \<open>i\<close>.\<close>

function withNewLocalInstances ::
    "Oracles \<Rightarrow> Expr list \<Rightarrow> nat \<Rightarrow> (Context \<Rightarrow> State \<Rightarrow> 'a Result) \<Rightarrow>
     Context \<Rightarrow> State \<Rightarrow> 'a Result" where
  "withNewLocalInstances orc fvars i k ctx s =
     (if \<not> i < length fvars then k ctx s
      else
        case getFVarLocalDecl (fvars ! i) ctx s of
          error e s1 \<Rightarrow> error e s1
        | ok decl s1 \<Rightarrow>
            (case isClassQuick orc (LocalDecl_type decl) ctx s1 of
               error e s2 \<Rightarrow> error e s2
             | ok c s2 \<Rightarrow>
                 (case c of
                    lnone \<Rightarrow> withNewLocalInstances orc fvars (i + 1) k ctx s2
                  | lsome cn \<Rightarrow>
                      restoreSynthInstance (synthInstance (cache s2))
                        (withNewLocalInstances orc fvars (i + 1) k
                           (ctx\<lparr>localInstances := localInstances ctx @
                                  [\<lparr>className = cn, instFVar = fvars ! i\<rparr>]\<rparr>)
                           (resetSynthInstance s2))
                  | lundef \<Rightarrow>
                      (case isClassExpensive orc (LocalDecl_type decl) ctx s2 of
                         error e s3 \<Rightarrow> error e s3
                       | ok None s3 \<Rightarrow> withNewLocalInstances orc fvars (i + 1) k ctx s3
                       | ok (Some cn) s3 \<Rightarrow>
                           restoreSynthInstance (synthInstance (cache s3))
                             (withNewLocalInstances orc fvars (i + 1) k
                                (ctx\<lparr>localInstances := localInstances ctx @
                                       [\<lparr>className = cn, instFVar = fvars ! i\<rparr>]\<rparr>)
                                (resetSynthInstance s3))))))"
  by pat_completeness auto
termination
  by (relation "measure (\<lambda>(orc, fvars, i, k, ctx, s). length fvars - i)") auto

declare withNewLocalInstances.simps [simp del]

text \<open>\<^verbatim>\<open>introNCoreAux___main___rarg___lambda__2\<close>: create the new goal, close it over
  the introduced variables, assign the old goal.\<close>

definition introNCoreAux_lambda_2 ::
    "Oracles \<Rightarrow> Expr \<Rightarrow> Expr list \<Rightarrow> MVarId \<Rightarrow> Name \<Rightarrow> Context \<Rightarrow> State \<Rightarrow>
     (Expr list \<times> MVarId) Result" where
  "introNCoreAux_lambda_2 orc ty fvars mvarId tag ctx s =
     (let newMVar = fst (mkFreshExprMVar ty tag 2 ctx s);
          s1 = snd (mkFreshExprMVar ty tag 2 ctx s)
      in case mkLambda orc fvars newMVar ctx s1 of
           ok val s2 \<Rightarrow>
             ok (fvars, Expr_mvarId_x21 newMVar)
                (s2\<lparr>mctx := MetavarContext_assignExpr (mctx s2) mvarId val\<rparr>)
         | error e s2 \<Rightarrow> error e s2)"

text \<open>\<^verbatim>\<open>introNCoreAux\<close> (\<^verbatim>\<open>spec__2\<close> is the copy with \<^verbatim>\<open>mkName\<close> fixed to
  \<^verbatim>\<open>mkAuxName\<close>). Arguments, in the order of the C code: goal, count \<open>n\<close>, local context,
  introduced free variables, start \<open>j\<close> of the not yet instantiated slice, names, type.
  In the default branch the continuation built from \<^verbatim>\<open>whnf\<close> and \<^verbatim>\<open>lambda__1\<close>
  captures \<^verbatim>\<open>lean_nat_sub(n, 1)\<close>, and \<^verbatim>\<open>lambda__1\<close> passes that count on.\<close>

fun introNCoreAux ::
    "Oracles \<Rightarrow> MVarId \<Rightarrow> nat \<Rightarrow> LocalContext \<Rightarrow> Expr list \<Rightarrow> nat \<Rightarrow> Name list \<Rightarrow> Expr \<Rightarrow>
     Context \<Rightarrow> State \<Rightarrow> (Expr list \<times> MVarId) Result" where
  "introNCoreAux orc mvarId 0 lc fvars j names ty ctx s =
     withNewLocalInstances orc fvars j
       (\<lambda>c st. case getMVarTag mvarId c st of
                  error e st1 \<Rightarrow> error e st1
                | ok tag st1 \<Rightarrow>
                    introNCoreAux_lambda_2 orc
                      (instantiateRevRange ty j (length fvars) fvars) fvars mvarId tag c st1)
       (ctx\<lparr>lctx := lc\<rparr>) s"
| "introNCoreAux orc mvarId (Suc i) lc fvars j names ty ctx s =
     (case ty of
        forallE n d b dat \<Rightarrow>
          introNCoreAux orc mvarId i
            (mk_local_decl lc (fst (mkFreshId s)) (fst (mkAuxName orc lc n names))
               (instantiateRevRange d j (length fvars) fvars) (binderInfo dat))
            (fvars @ [fvar (fst (mkFreshId s))]) j (snd (mkAuxName orc lc n names)) b
            ctx (snd (mkFreshId s))
      | letE n t v b \<Rightarrow>
          introNCoreAux orc mvarId i
            (mk_let_decl lc (fst (mkFreshId s)) (fst (mkAuxName orc lc n names))
               (instantiateRevRange t j (length fvars) fvars)
               (instantiateRevRange v j (length fvars) fvars))
            (fvars @ [fvar (fst (mkFreshId s))]) j (snd (mkAuxName orc lc n names)) b
            ctx (snd (mkFreshId s))
      | _ \<Rightarrow>
          withNewLocalInstances orc fvars j
            (\<lambda>c st. case whnf orc (instantiateRevRange ty j (length fvars) fvars) c st of
                       error e st1 \<Rightarrow> error e st1
                     | ok newType st1 \<Rightarrow>
                         if Expr_isForall newType
                         then introNCoreAux orc mvarId i lc fvars (length fvars) names
                                newType c st1
                         else throwTacticEx introN_closed_2 mvarId introN_closed_3 c st1)
            (ctx\<lparr>lctx := lc\<rparr>) s)"

text \<open>\<^verbatim>\<open>Array.umapMAux\<close> at \<^verbatim>\<open>Expr.fvarId!\<close>: from index \<open>i\<close> on, every element is
  replaced by its identifier. The C code overwrites the array in place and returns all of
  it, the first \<open>i\<close> elements untouched; the model returns the rewritten part only. The
  one call in the file is at index 0, where the rewritten part is the whole array.\<close>

function Array_umapMAux :: "nat \<Rightarrow> Expr list \<Rightarrow> FVarId list" where
  "Array_umapMAux i xs =
     (if \<not> i < length xs then []
      else Expr_fvarId_x21 (xs ! i) # Array_umapMAux (i + 1) xs)"
  by pat_completeness auto
termination
  by (relation "measure (\<lambda>(i, xs). length xs - i)") auto

declare Array_umapMAux.simps [simp del]

text \<open>\<^verbatim>\<open>Array.isEqvAux\<close> at \<^verbatim>\<open>LocalInstance.beq\<close>: the caller has checked that the two
  arrays have the same size, and the loop reads both unchecked.\<close>

function Array_isEqvAux ::
    "Oracles \<Rightarrow> LocalInstances \<Rightarrow> LocalInstances \<Rightarrow> nat \<Rightarrow> bool" where
  "Array_isEqvAux orc a b i =
     (if \<not> i < length a then True
      else if \<not> LocalInstance_beq orc (a ! i) (b ! i) then False
      else Array_isEqvAux orc a b (i + 1))"
  by pat_completeness auto
termination
  by (relation "measure (\<lambda>(orc, a, b, i). length a - i)") auto

declare Array_isEqvAux.simps [simp del]

text \<open>The body that \<^verbatim>\<open>introNCore\<close> runs in the goal's context: the assignment check,
  the goal's type, the peeling, and the projection of the free variables to identifiers.\<close>

definition introNCore_body ::
    "Oracles \<Rightarrow> MVarId \<Rightarrow> nat \<Rightarrow> Name list \<Rightarrow> LocalContext \<Rightarrow> Context \<Rightarrow> State \<Rightarrow>
     (FVarId list \<times> MVarId) Result" where
  "introNCore_body orc mvarId n names lc ctx s =
     (case checkNotAssigned mvarId introN_closed_2 ctx s of
        error e s1 \<Rightarrow> error e s1
      | ok u s1 \<Rightarrow>
          (case getMVarType mvarId ctx s1 of
             error e s2 \<Rightarrow> error e s2
           | ok ty s2 \<Rightarrow>
               (case introNCoreAux orc mvarId n lc [] 0 names ty ctx s2 of
                  error e s3 \<Rightarrow> error e s3
                | ok r s3 \<Rightarrow> ok (Array_umapMAux 0 (fst r), snd r) s3)))"

text \<open>\<^verbatim>\<open>introNCore\<close> (\<^verbatim>\<open>spec__1\<close>): fetch the goal's declaration, install its local
  context and local instances in the reader context, and run the body, inside a cache reset
  unless the goal's local instances are those of the ambient context.\<close>

definition introNCore ::
    "Oracles \<Rightarrow> MVarId \<Rightarrow> nat \<Rightarrow> Name list \<Rightarrow> Context \<Rightarrow> State \<Rightarrow>
     (FVarId list \<times> MVarId) Result" where
  "introNCore orc mvarId n names ctx s =
     (case getMVarDecl mvarId ctx s of
        error e s1 \<Rightarrow> error e s1
      | ok d s1 \<Rightarrow>
          if length (localInstances ctx) = length (mdecl_localInstances d)
             \<and> Array_isEqvAux orc (localInstances ctx) (mdecl_localInstances d) 0
          then introNCore_body orc mvarId n names (mdecl_lctx d)
                 (ctx\<lparr>lctx := mdecl_lctx d, localInstances := mdecl_localInstances d\<rparr>) s1
          else restoreSynthInstance (synthInstance (cache s1))
                 (introNCore_body orc mvarId n names (mdecl_lctx d)
                    (ctx\<lparr>lctx := mdecl_lctx d, localInstances := mdecl_localInstances d\<rparr>)
                    (resetSynthInstance s1)))"

definition introN ::
    "Oracles \<Rightarrow> MVarId \<Rightarrow> nat \<Rightarrow> Name list \<Rightarrow> Context \<Rightarrow> State \<Rightarrow>
     (FVarId list \<times> MVarId) Result" where
  "introN orc mvarId n givenNames ctx s = introNCore orc mvarId n givenNames ctx s"

definition intro ::
    "Oracles \<Rightarrow> MVarId \<Rightarrow> Name \<Rightarrow> Context \<Rightarrow> State \<Rightarrow> (FVarId \<times> MVarId) Result" where
  "intro orc mvarId name ctx s =
     (case introNCore orc mvarId 1 [name] ctx s of
        ok r s1 \<Rightarrow> ok (array_get anonymous (fst r) 0, snd r) s1
      | error e s1 \<Rightarrow> error e s1)"

definition intro1 ::
    "Oracles \<Rightarrow> MVarId \<Rightarrow> Context \<Rightarrow> State \<Rightarrow> (FVarId \<times> MVarId) Result" where
  "intro1 orc mvarId ctx s =
     (case introNCore orc mvarId 1 [] ctx s of
        ok r s1 \<Rightarrow> ok (array_get anonymous (fst r) 0, snd r) s1
      | error e s1 \<Rightarrow> error e s1)"

section \<open>Notions used to state the properties\<close>

text \<open>Projections of a result.\<close>

definition resultValue :: "'a Result \<Rightarrow> 'a option" where
  "resultValue r = (case r of ok a s \<Rightarrow> Some a | error e s \<Rightarrow> None)"

definition resultError :: "'a Result \<Rightarrow> Exception option" where
  "resultError r = (case r of ok a s \<Rightarrow> None | error e s \<Rightarrow> Some e)"

definition resultState :: "'a Result \<Rightarrow> State" where
  "resultState r = (case r of ok a s \<Rightarrow> s | error e s \<Rightarrow> s)"

text \<open>The number of leading \<^verbatim>\<open>forallE\<close>/\<^verbatim>\<open>letE\<close> binders of a type, their names,
  and the body under the first \<open>n\<close> of them.\<close>

fun leadingBinders :: "Expr \<Rightarrow> nat" where
  "leadingBinders (forallE n t b dat) = Suc (leadingBinders b)"
| "leadingBinders (letE n t v b) = Suc (leadingBinders b)"
| "leadingBinders _ = 0"

fun binderNames :: "Expr \<Rightarrow> Name list" where
  "binderNames (forallE n t b dat) = n # binderNames b"
| "binderNames (letE n t v b) = n # binderNames b"
| "binderNames _ = []"

fun nthBody :: "nat \<Rightarrow> Expr \<Rightarrow> Expr" where
  "nthBody 0 e = e"
| "nthBody (Suc n) e =
     (case e of
        forallE nm t b dat \<Rightarrow> nthBody n b
      | letE nm t v b \<Rightarrow> nthBody n b
      | _ \<Rightarrow> e)"

text \<open>The spec's reading of peeling: take the binders off one at a time, each time
  instantiating the body with the free variable introduced for that binder.\<close>

definition instantiate1 :: "Expr \<Rightarrow> Expr \<Rightarrow> Expr" where
  "instantiate1 e v = instantiateRevRange e 0 1 [v]"

fun peelBinders :: "nat \<Rightarrow> Expr \<Rightarrow> FVarId list \<Rightarrow> Expr option" where
  "peelBinders 0 e xs = Some e"
| "peelBinders (Suc n) e xs =
     (case xs of
        [] \<Rightarrow> None
      | x # rest \<Rightarrow>
          (case e of
             forallE nm t b dat \<Rightarrow> peelBinders n (instantiate1 b (fvar x)) rest
           | letE nm t v b \<Rightarrow> peelBinders n (instantiate1 b (fvar x)) rest
           | _ \<Rightarrow> None))"

text \<open>The identifiers the generator \<open>g\<close> mints in its next \<open>n\<close> calls, and the state after
  \<open>n\<close> calls.\<close>

definition freshIds :: "NameGenerator \<Rightarrow> nat \<Rightarrow> FVarId list" where
  "freshIds g n = map (\<lambda>k. num (namePrefix g) (idx g + k)) [0..<n]"

definition advanceNGen :: "nat \<Rightarrow> State \<Rightarrow> State" where
  "advanceNGen n s = s\<lparr>ngen := (ngen s)\<lparr>idx := idx (ngen s) + n\<rparr>\<rparr>"

text \<open>The local context after \<open>m\<close> binders that are present in the type have been peeled:
  the declarations \<^verbatim>\<open>introNCoreAux\<close> appends in its \<^verbatim>\<open>forallE\<close> and \<^verbatim>\<open>letE\<close>
  branches.\<close>

fun peelLctx ::
    "Oracles \<Rightarrow> nat \<Rightarrow> LocalContext \<Rightarrow> Expr list \<Rightarrow> nat \<Rightarrow> Name list \<Rightarrow> Expr \<Rightarrow>
     NameGenerator \<Rightarrow> LocalContext" where
  "peelLctx orc 0 lc fvars j names ty g = lc"
| "peelLctx orc (Suc m) lc fvars j names ty g =
     (case ty of
        forallE n d b dat \<Rightarrow>
          peelLctx orc m
            (mk_local_decl lc (num (namePrefix g) (idx g)) (fst (mkAuxName orc lc n names))
               (instantiateRevRange d j (length fvars) fvars) (binderInfo dat))
            (fvars @ [fvar (num (namePrefix g) (idx g))]) j (snd (mkAuxName orc lc n names)) b
            (g\<lparr>idx := Suc (idx g)\<rparr>)
      | letE n t v b \<Rightarrow>
          peelLctx orc m
            (mk_let_decl lc (num (namePrefix g) (idx g)) (fst (mkAuxName orc lc n names))
               (instantiateRevRange t j (length fvars) fvars)
               (instantiateRevRange v j (length fvars) fvars))
            (fvars @ [fvar (num (namePrefix g) (idx g))]) j (snd (mkAuxName orc lc n names)) b
            (g\<lparr>idx := Suc (idx g)\<rparr>)
      | _ \<Rightarrow> lc)"

text \<open>The continuation \<^verbatim>\<open>introNCoreAux\<close> runs once the count has reached zero.\<close>

definition closeGoal ::
    "Oracles \<Rightarrow> MVarId \<Rightarrow> Expr \<Rightarrow> Expr list \<Rightarrow> Context \<Rightarrow> State \<Rightarrow>
     (Expr list \<times> MVarId) Result" where
  "closeGoal orc mvarId ty fvars c st =
     (case getMVarTag mvarId c st of
        error e st1 \<Rightarrow> error e st1
      | ok tag st1 \<Rightarrow> introNCoreAux_lambda_2 orc ty fvars mvarId tag c st1)"

text \<open>Assumptions on the external collaborators. An action succeeds keeping declarations
  when it never fails and every metavariable declared before it is declared, unchanged,
  after it; it keeps the metavariable context when the context it returns, on success and
  on failure, is the one it was given; the two class tests are pure when they answer from
  the type alone, without failing and without touching the state.\<close>

definition succeedsKeepingDecls :: "(Context \<Rightarrow> State \<Rightarrow> 'a Result) \<Rightarrow> bool" where
  "succeedsKeepingDecls act \<longleftrightarrow>
     (\<forall>c s. \<exists>a s'. act c s = ok a s' \<and>
        (\<forall>m d. decls (mctx s) m = Some d \<longrightarrow> decls (mctx s') m = Some d))"

definition keepsMCtx :: "(Context \<Rightarrow> State \<Rightarrow> 'a Result) \<Rightarrow> bool" where
  "keepsMCtx act \<longleftrightarrow> (\<forall>c s. mctx (resultState (act c s)) = mctx s)"

definition classifierPure ::
    "Oracles \<Rightarrow> (Expr \<Rightarrow> LOption) \<Rightarrow> (Expr \<Rightarrow> Name option) \<Rightarrow> bool" where
  "classifierPure orc q x \<longleftrightarrow>
     (\<forall>e c s. isClassQuick orc e c s = ok (q e) s) \<and>
     (\<forall>e c s. isClassExpensive orc e c s = ok (x e) s)"

text \<open>The two-tier decision for one type, and the local instances it yields for the free
  variables \<open>fvars\<close> from index \<open>i\<close> on, in order.\<close>

definition classify :: "(Expr \<Rightarrow> LOption) \<Rightarrow> (Expr \<Rightarrow> Name option) \<Rightarrow> Expr \<Rightarrow> Name option" where
  "classify q x ty = (case q ty of lnone \<Rightarrow> None | lsome cn \<Rightarrow> Some cn | lundef \<Rightarrow> x ty)"

definition instanceOf ::
    "(Expr \<Rightarrow> LOption) \<Rightarrow> (Expr \<Rightarrow> Name option) \<Rightarrow> LocalContext \<Rightarrow> Expr \<Rightarrow>
     LocalInstance option" where
  "instanceOf q x lc fv =
     (case LocalContext_find lc (Expr_fvarId_x21 fv) of
        None \<Rightarrow> None
      | Some d \<Rightarrow>
          (case classify q x (LocalDecl_type d) of
             None \<Rightarrow> None
           | Some cn \<Rightarrow> Some \<lparr>className = cn, instFVar = fv\<rparr>))"

definition newInstances ::
    "(Expr \<Rightarrow> LOption) \<Rightarrow> (Expr \<Rightarrow> Name option) \<Rightarrow> LocalContext \<Rightarrow> Expr list \<Rightarrow> nat \<Rightarrow>
     LocalInstances" where
  "newInstances q x lc fvars i = List.map_filter (instanceOf q x lc) (drop i fvars)"

section \<open>Sample collaborators, goals and states\<close>

definition nm :: "string \<Rightarrow> Name" where
  "nm x = str anonymous x"

text \<open>A reduction that unfolds the constant \<^verbatim>\<open>T\<close> to a function type and leaves every
  other term alone; class tests that know the class \<^verbatim>\<open>C\<close> syntactically and the class
  \<^verbatim>\<open>U\<close> only semantically; a closing step that succeeds.\<close>

definition sampleOracles :: Oracles where
  "sampleOracles =
     \<lparr>whnf = (\<lambda>e c s. ok (if e = constE (nm ''T'')
                            then forallE (nm ''x'') (constE (nm ''A'')) (constE (nm ''B'')) 0
                            else e) s),
      isClassQuick = (\<lambda>e c s. ok (if e = constE (nm ''C'') then lsome (nm ''C'')
                                    else if e = constE (nm ''U'') then lundef else lnone) s),
      isClassExpensive = (\<lambda>e c s. ok (if e = constE (nm ''U'') then Some (nm ''U'') else None) s),
      mkLambda = (\<lambda>xs e c s. ok (foldr app xs e) s),
      getUnusedName = (\<lambda>lc n. str n ''_1''),
      LocalInstance_beq = (\<lambda>a b. a = b)\<rparr>"

text \<open>The same, with a closing step that fails and leaves the state as it found it.\<close>

definition failingClosure :: Oracles where
  "failingClosure = sampleOracles\<lparr>mkLambda := (\<lambda>xs e c s. error (oracleFailure 0) s)\<rparr>"

text \<open>The same, with a quick class test that logs, at every call, how many declarations
  the local context holds.\<close>

definition recordingOracles :: Oracles where
  "recordingOracles =
     sampleOracles\<lparr>isClassQuick :=
       (\<lambda>e c s. ok (if e = constE (nm ''C'') then lsome (nm ''C'') else lnone)
                    (s\<lparr>traceState := traceState s @ [length (lctx c)]\<rparr>))\<rparr>"

text \<open>The same, with a reduction that turns every term into a \<^verbatim>\<open>letE\<close>.\<close>

definition letOracles :: Oracles where
  "letOracles =
     sampleOracles\<lparr>whnf :=
       (\<lambda>e c s. ok (letE (nm ''y'') (constE (nm ''A'')) (constE (nm ''a'')) (constE (nm ''B''))) s)\<rparr>"

definition goal0 :: MVarId where
  "goal0 = nm ''g''"

definition ctx0 :: Context where
  "ctx0 = \<lparr>config = 0, lctx = [], localInstances = [], ctx_field3 = 0, ctx_field4 = 0\<rparr>"

definition decl0 :: "Expr \<Rightarrow> MetavarDecl" where
  "decl0 ty = \<lparr>userName = nm ''tag'', mdecl_lctx = [], mdecl_type = ty, mdecl_depth = 0,
               mdecl_localInstances = [], mdecl_kind = 0\<rparr>"

definition state0 :: "Expr \<Rightarrow> State" where
  "state0 ty =
     \<lparr>env = 0,
      mctx = \<lparr>decls = [goal0 \<mapsto> decl0 ty], eAssignment = Map.empty\<rparr>,
      cache = \<lparr>inferType = 0, funInfo = 0, synthInstance = [(constE (nm ''C''), None)]\<rparr>,
      ngen = \<lparr>namePrefix = anonymous, idx = 0\<rparr>, traceState = [], postponed = 0\<rparr>"

definition stateAssigned :: "Expr \<Rightarrow> State" where
  "stateAssigned ty =
     (state0 ty)\<lparr>mctx := (mctx (state0 ty))\<lparr>eAssignment := [goal0 \<mapsto> constE (nm ''v'')]\<rparr>\<rparr>"

text \<open>Sample types: \<^verbatim>\<open>\<forall> (a : C) (b : #0), #0 #1\<close>, a let under a binder, and constants.\<close>

definition tyTwo :: Expr where
  "tyTwo = forallE (nm ''a'') (constE (nm ''C''))
             (forallE (nm ''b'') (bvar 0) (app (bvar 0) (bvar 1)) 0) 0"

definition tyLet :: Expr where
  "tyLet = forallE (nm ''a'') (constE (nm ''U''))
             (letE (nm ''b'') (constE (nm ''A'')) (bvar 0) (app (bvar 0) (bvar 1))) 0"

definition tyOne :: Expr where
  "tyOne = forallE (nm ''a'') (constE (nm ''A'')) (constE (nm ''N'')) 0"

text \<open>A local context with a hypothesis of the class \<^verbatim>\<open>C\<close>, one of the class
  \<^verbatim>\<open>U\<close> and one of the plain type \<^verbatim>\<open>A\<close>; and a continuation that reports the
  local instances and the memo it is run with.\<close>

definition lctxThree :: LocalContext where
  "lctxThree =
     [cdecl 0 (nm ''a'') (nm ''a'') (constE (nm ''C'')) 0,
      cdecl 1 (nm ''b'') (nm ''b'') (constE (nm ''U'')) 0,
      cdecl 2 (nm ''c'') (nm ''c'') (constE (nm ''A'')) 0]"

definition fvarsThree :: "Expr list" where
  "fvarsThree = [fvar (nm ''a''), fvar (nm ''b''), fvar (nm ''c'')]"

definition observe ::
    "Context \<Rightarrow> State \<Rightarrow> (LocalInstances \<times> SynthInstanceCache) Result" where
  "observe c st = ok (localInstances c, synthInstance (cache st)) st"

definition sampleQuick :: "Expr \<Rightarrow> LOption" where
  "sampleQuick e =
     (if e = constE (nm ''C'') then lsome (nm ''C'')
      else if e = constE (nm ''U'') then lundef else lnone)"

definition sampleExpensive :: "Expr \<Rightarrow> Name option" where
  "sampleExpensive e = (if e = constE (nm ''U'') then Some (nm ''U'') else None)"

text \<open>Two local instances on the same hypothesis; a state whose goal is declared with
  given local instances; and collaborators whose quick class test answers "no class" and
  logs, at every call, how many entries the memo \<^verbatim>\<open>synthInstance\<close> holds.\<close>

definition instC :: LocalInstance where
  "instC = \<lparr>className = nm ''C'', instFVar = fvar (nm ''h'')\<rparr>"

definition instU :: LocalInstance where
  "instU = \<lparr>className = nm ''U'', instFVar = fvar (nm ''h'')\<rparr>"

definition stateWith :: "LocalInstances \<Rightarrow> Expr \<Rightarrow> State" where
  "stateWith insts ty =
     (state0 ty)\<lparr>mctx := (mctx (state0 ty))
        \<lparr>decls := [goal0 \<mapsto> (decl0 ty)\<lparr>mdecl_localInstances := insts\<rparr>]\<rparr>\<rparr>"

definition memoOracles :: Oracles where
  "memoOracles =
     sampleOracles\<lparr>isClassQuick :=
       (\<lambda>e c s. ok lnone
          (s\<lparr>traceState := traceState s @ [length (synthInstance (cache s))]\<rparr>))\<rparr>"

text \<open>A failure, if there is one, comes with the metavariable context \<open>m\<close>.\<close>

definition errorKeepsMCtx :: "MetavarContext \<Rightarrow> 'a Result \<Rightarrow> bool" where
  "errorKeepsMCtx m r \<longleftrightarrow> (case r of ok a s \<Rightarrow> True | error e s \<Rightarrow> mctx s = m)"

section \<open>Auxiliary facts\<close>

lemma restore_reset_state [simp]:
  "(resetSynthInstance s)\<lparr>cache := (cache (resetSynthInstance s))
      \<lparr>synthInstance := synthInstance (cache s)\<rparr>\<rparr> = s"
  by (simp add: resetSynthInstance_def)

lemma mctx_resetSynthInstance [simp]: "mctx (resetSynthInstance s) = mctx s"
  by (simp add: resetSynthInstance_def)

lemma ngen_resetSynthInstance [simp]: "ngen (resetSynthInstance s) = ngen s"
  by (simp add: resetSynthInstance_def)

lemma restoreSynthInstance_simps [simp]:
  "restoreSynthInstance v (ok a s) = ok a (s\<lparr>cache := (cache s)\<lparr>synthInstance := v\<rparr>\<rparr>)"
  "restoreSynthInstance v (error e s) = error e (s\<lparr>cache := (cache s)\<lparr>synthInstance := v\<rparr>\<rparr>)"
  by (simp_all add: restoreSynthInstance_def)

lemma Array_isEqvAux_all:
  "Array_isEqvAux orc a b i \<longleftrightarrow>
     (\<forall>k. i \<le> k \<and> k < length a \<longrightarrow> LocalInstance_beq orc (a ! k) (b ! k))"
proof (induction orc a b i rule: Array_isEqvAux.induct)
  case (1 orc a b i)
  show ?case
  proof (cases "i < length a")
    case False
    then show ?thesis by (subst Array_isEqvAux.simps) auto
  next
    case True
    show ?thesis
    proof (cases "LocalInstance_beq orc (a ! i) (b ! i)")
      case False
      with True show ?thesis by (subst Array_isEqvAux.simps) auto
    next
      case beq: True
      have "(\<forall>k. i \<le> k \<and> k < length a \<longrightarrow> LocalInstance_beq orc (a ! k) (b ! k))
        \<longleftrightarrow> (\<forall>k. i + 1 \<le> k \<and> k < length a \<longrightarrow> LocalInstance_beq orc (a ! k) (b ! k))"
      proof (intro iffI allI impI)
        fix k
        assume h: "\<forall>k. i \<le> k \<and> k < length a \<longrightarrow> LocalInstance_beq orc (a ! k) (b ! k)"
          and k: "i + 1 \<le> k \<and> k < length a"
        from k have "i \<le> k \<and> k < length a" by arith
        with h show "LocalInstance_beq orc (a ! k) (b ! k)" by blast
      next
        fix k
        assume h: "\<forall>k. i + 1 \<le> k \<and> k < length a \<longrightarrow> LocalInstance_beq orc (a ! k) (b ! k)"
          and k: "i \<le> k \<and> k < length a"
        show "LocalInstance_beq orc (a ! k) (b ! k)"
        proof (cases "k = i")
          case True
          with beq show ?thesis by simp
        next
          case False
          with k have "i + 1 \<le> k \<and> k < length a" by arith
          with h show ?thesis by blast
        qed
      qed
      with "1.IH" True beq show ?thesis
        by (subst Array_isEqvAux.simps) simp
    qed
  qed
qed

lemma Array_isEqv_list_all2:
  "length a = length b \<and> Array_isEqvAux orc a b 0 \<longleftrightarrow> list_all2 (LocalInstance_beq orc) a b"
  by (auto simp add: Array_isEqvAux_all list_all2_conv_all_nth)

lemma liftLooseBVars_zero: "liftLooseBVars e s 0 = e"
  by (induction e arbitrary: s) simp_all

lemma instantiateRevAux_Nil: "instantiateRevAux [] k e = e"
  by (induction e arbitrary: k) simp_all

lemma instantiateRevRange_empty: "instantiateRevRange e j j subst = e"
  by (simp add: instantiateRevRange_def instantiateRevAux_Nil)

lemma instantiateRevAux_fvars_append:
  "instantiateRevAux (map fvar (vs @ ws)) k e =
   instantiateRevAux (map fvar ws) k (instantiateRevAux (map fvar vs) (k + length ws) e)"
proof (induction e arbitrary: k)
  case (bvar i)
  show ?case
  proof (cases "i < k")
    case True
    then show ?thesis by simp
  next
    case ge: False
    show ?thesis
    proof (cases "i < k + length ws")
      case True
      with ge have "length vs + length ws - (i - k) - 1 \<ge> length vs" by arith
      moreover from True ge
      have "length vs + length ws - (i - k) - 1 - length vs = length ws - (i - k) - 1"
        by arith
      ultimately show ?thesis using True ge by (simp add: nth_append)
    next
      case ge2: False
      show ?thesis
      proof (cases "i < k + length ws + length vs")
        case True
        with ge2 have a: "length vs + length ws - (i - k) - 1 < length vs" by arith
        from True ge2 have b: "length vs + length ws - (i - k) - 1 = length vs - (i - (k + length ws)) - 1"
          by arith
        from a b True ge ge2 show ?thesis by (simp add: nth_append add.commute add.left_commute)
      next
        case False
        then have c: "\<not> i - length vs < k + length ws" "\<not> i - length vs < k" by arith+
        from False ge ge2 c show ?thesis by simp
      qed
    qed
  qed
qed simp_all

lemma instantiate1_fvar:
  "instantiate1 (instantiateRevAux (map fvar pre) (Suc 0) b) (fvar x)
     = instantiateRevAux (map fvar (pre @ [x])) 0 b"
  using instantiateRevAux_fvars_append [of pre "[x]" 0 b]
  by (simp add: instantiate1_def instantiateRevRange_def)

lemma peelBinders_instantiate:
  "n \<le> leadingBinders e \<Longrightarrow> length xs = n \<Longrightarrow>
   peelBinders n (instantiateRevAux (map fvar pre) 0 e) xs
     = Some (instantiateRevAux (map fvar (pre @ xs)) 0 (nthBody n e))"
proof (induction n arbitrary: e pre xs)
  case 0
  then show ?case by simp
next
  case (Suc n)
  from Suc.prems(2) obtain x rest where xs: "xs = x # rest" and len: "length rest = n"
    by (cases xs) auto
  show ?case
  proof (cases e)
    case (forallE nm t b dat)
    with Suc.prems have "n \<le> leadingBinders b" by simp
    from Suc.IH [OF this len, of "pre @ [x]"] forallE xs show ?thesis
      by (simp add: instantiate1_fvar)
  next
    case (letE nm t v b)
    with Suc.prems have "n \<le> leadingBinders b" by simp
    from Suc.IH [OF this len, of "pre @ [x]"] letE xs show ?thesis
      by (simp add: instantiate1_fvar)
  qed (use Suc.prems in simp_all)
qed

lemma peelBinders_code:
  "n \<le> leadingBinders e \<Longrightarrow> length xs = n \<Longrightarrow>
   peelBinders n e xs = Some (instantiateRevAux (map fvar xs) 0 (nthBody n e))"
  using peelBinders_instantiate [of n e xs "[]"] by (simp add: instantiateRevAux_Nil)

lemma freshIds_0 [simp]: "freshIds g 0 = []"
  by (simp add: freshIds_def)

lemma length_freshIds [simp]: "length (freshIds g n) = n"
  by (simp add: freshIds_def)

lemma freshIds_Suc:
  "freshIds g (Suc n) = num (namePrefix g) (idx g) # freshIds (g\<lparr>idx := Suc (idx g)\<rparr>) n"
proof -
  have "[0..<Suc n] = 0 # map Suc [0..<n]"
    by (subst upt_conv_Cons) (simp_all add: map_Suc_upt del: upt_Suc)
  then show ?thesis by (simp add: freshIds_def comp_def del: upt_Suc)
qed

lemma distinct_freshIds: "distinct (freshIds g n)"
  by (simp add: freshIds_def distinct_map inj_on_def)

lemma advanceNGen_0 [simp]: "advanceNGen 0 s = s"
  by (simp add: advanceNGen_def)

lemma advanceNGen_Suc: "advanceNGen m (snd (mkFreshId s)) = advanceNGen (Suc m) s"
  by (simp add: advanceNGen_def mkFreshId_def)

lemma mctx_advanceNGen [simp]: "mctx (advanceNGen n s) = mctx s"
  by (simp add: advanceNGen_def)

lemma cache_advanceNGen [simp]: "cache (advanceNGen n s) = cache s"
  by (simp add: advanceNGen_def)

lemma snd_mkAuxName: "snd (mkAuxName orc lc n names) = tl names"
  by (simp add: mkAuxName_def split: list.split)

lemma fst_mkAuxName:
  "fst (mkAuxName orc lc n names) =
     (if 0 < length names \<and> names ! 0 \<noteq> mkAuxName_closed_1 then names ! 0
      else getUnusedName orc lc n)"
  by (simp add: mkAuxName_def split: list.split)

lemma introNCoreAux_peel:
  "m \<le> leadingBinders ty \<Longrightarrow>
   introNCoreAux orc g (m + r) lc fvars j names ty ctx s =
   introNCoreAux orc g r (peelLctx orc m lc fvars j names ty (ngen s))
     (fvars @ map fvar (freshIds (ngen s) m)) j (drop m names) (nthBody m ty) ctx
     (advanceNGen m s)"
proof (induction m arbitrary: lc fvars names ty s)
  case 0
  then show ?case by simp
next
  case (Suc m)
  have ng: "ngen (snd (mkFreshId s)) = (ngen s)\<lparr>idx := Suc (idx (ngen s))\<rparr>"
    by (simp add: mkFreshId_def)
  have fid: "fst (mkFreshId s) = num (namePrefix (ngen s)) (idx (ngen s))"
    by (simp add: mkFreshId_def)
  show ?case
  proof (cases ty)
    case (forallE n d b dat)
    with Suc.prems have le: "m \<le> leadingBinders b" by simp
    show ?thesis
      using Suc.IH [OF le] forallE
      by (simp add: ng fid freshIds_Suc snd_mkAuxName drop_Suc advanceNGen_Suc)
  next
    case (letE n t v b)
    with Suc.prems have le: "m \<le> leadingBinders b" by simp
    show ?thesis
      using Suc.IH [OF le] letE
      by (simp add: ng fid freshIds_Suc snd_mkAuxName drop_Suc advanceNGen_Suc)
  qed (use Suc.prems in simp_all)
qed

lemma nthBody_leadingBinders:
  "m \<le> leadingBinders ty \<Longrightarrow> leadingBinders (nthBody m ty) = leadingBinders ty - m"
proof (induction m arbitrary: ty)
  case 0
  then show ?case by simp
next
  case (Suc m)
  then show ?case by (cases ty) simp_all
qed

lemma peelLctx_ext:
  "m \<le> leadingBinders ty \<Longrightarrow>
   \<exists>ext. peelLctx orc m lc fvars j names ty g = lc @ ext
        \<and> map LocalDecl_fvarId ext = freshIds g m"
proof (induction m arbitrary: lc fvars names ty g)
  case 0
  then show ?case by simp
next
  case (Suc m)
  show ?case
  proof (cases ty)
    case (forallE n d b dat)
    with Suc.prems have le: "m \<le> leadingBinders b" by simp
    from Suc.IH [OF le, of "mk_local_decl lc (num (namePrefix g) (idx g))
        (fst (mkAuxName orc lc n names)) (instantiateRevRange d j (length fvars) fvars)
        (binderInfo dat)" "fvars @ [fvar (num (namePrefix g) (idx g))]"
        "snd (mkAuxName orc lc n names)" "g\<lparr>idx := Suc (idx g)\<rparr>"]
    obtain ext where "peelLctx orc (Suc m) lc fvars j names ty g
        = mk_local_decl lc (num (namePrefix g) (idx g))
        (fst (mkAuxName orc lc n names)) (instantiateRevRange d j (length fvars) fvars)
        (binderInfo dat) @ ext"
      and "map LocalDecl_fvarId ext = freshIds (g\<lparr>idx := Suc (idx g)\<rparr>) m"
      using forallE by auto
    then show ?thesis
      by (simp add: mk_local_decl_def freshIds_Suc)
  next
    case (letE n t v b)
    with Suc.prems have le: "m \<le> leadingBinders b" by simp
    from Suc.IH [OF le, of "mk_let_decl lc (num (namePrefix g) (idx g))
        (fst (mkAuxName orc lc n names)) (instantiateRevRange t j (length fvars) fvars)
        (instantiateRevRange v j (length fvars) fvars)"
        "fvars @ [fvar (num (namePrefix g) (idx g))]"
        "snd (mkAuxName orc lc n names)" "g\<lparr>idx := Suc (idx g)\<rparr>"]
    obtain ext where "peelLctx orc (Suc m) lc fvars j names ty g
        = mk_let_decl lc (num (namePrefix g) (idx g))
        (fst (mkAuxName orc lc n names)) (instantiateRevRange t j (length fvars) fvars)
        (instantiateRevRange v j (length fvars) fvars) @ ext"
      and "map LocalDecl_fvarId ext = freshIds (g\<lparr>idx := Suc (idx g)\<rparr>) m"
      using letE by auto
    then show ?thesis
      by (simp add: mk_let_decl_def freshIds_Suc)
  qed (use Suc.prems in simp_all)
qed

lemma length_peelLctx:
  "m \<le> leadingBinders ty \<Longrightarrow> length (peelLctx orc m lc fvars j names ty g) = length lc + m"
proof -
  assume "m \<le> leadingBinders ty"
  from peelLctx_ext [OF this, of orc lc fvars j names g]
  obtain ext where e: "peelLctx orc m lc fvars j names ty g = lc @ ext"
    and f: "map LocalDecl_fvarId ext = freshIds g m" by blast
  from f have "length ext = m" by (metis length_map length_freshIds)
  with e show ?thesis by simp
qed

lemma LocalContext_find_Some:
  "x \<in> LocalDecl_fvarId ` set lc \<Longrightarrow> LocalContext_find lc x \<noteq> None"
  by (auto simp add: LocalContext_find_def find_None_iff)

lemma peelLctx_finds:
  assumes "m \<le> leadingBinders ty" and "k < m"
  shows "LocalContext_find (peelLctx orc m lc fvars j names ty g) (freshIds g m ! k) \<noteq> None"
proof -
  from peelLctx_ext [OF assms(1), of orc lc fvars j names g]
  obtain ext where e: "peelLctx orc m lc fvars j names ty g = lc @ ext"
    and f: "map LocalDecl_fvarId ext = freshIds g m" by blast
  from assms(2) have "freshIds g m ! k \<in> set (freshIds g m)" by simp
  with f have "freshIds g m ! k \<in> LocalDecl_fvarId ` set ext" by (metis set_map)
  with e show ?thesis by (intro LocalContext_find_Some) auto
qed

lemma peelLctx_names_step:
  assumes P: "peelLctx orc (Suc m) lc fvars j names ty g = peelLctx orc m lc1 fvars1 j names1 b g1"
    and lc1: "lc1 = lc @ [c]"
    and un: "LocalDecl_userName c = fst (mkAuxName orc lc n names)"
    and nm1: "names1 = tl names"
    and bn: "binderNames ty = n # binderNames b"
    and le: "m \<le> leadingBinders b"
    and k: "k < Suc m"
    and IH: "\<And>k'. k' < m \<Longrightarrow>
       LocalDecl_userName (peelLctx orc m lc1 fvars1 j names1 b g1 ! (length lc1 + k')) =
         (if k' < length names1 \<and> names1 ! k' \<noteq> mkAuxName_closed_1 then names1 ! k'
          else getUnusedName orc (take (length lc1 + k') (peelLctx orc m lc1 fvars1 j names1 b g1))
                 (binderNames b ! k'))"
  shows "LocalDecl_userName (peelLctx orc (Suc m) lc fvars j names ty g ! (length lc + k)) =
     (if k < length names \<and> names ! k \<noteq> mkAuxName_closed_1 then names ! k
      else getUnusedName orc (take (length lc + k) (peelLctx orc (Suc m) lc fvars j names ty g))
             (binderNames ty ! k))"
proof -
  let ?P = "peelLctx orc m lc1 fvars1 j names1 b g1"
  from peelLctx_ext [OF le, of orc lc1 fvars1 j names1 g1]
  obtain ext where ext: "?P = (lc @ [c]) @ ext" unfolding lc1 by blast
  have at: "?P ! length lc = c" and pre: "take (length lc) ?P = lc"
    by (simp_all add: ext nth_append)
  show ?thesis
  proof (cases k)
    case 0
    have lhs: "LocalDecl_userName (?P ! (length lc + k)) = fst (mkAuxName orc lc n names)"
      using at un by (simp only: 0 add_0_right)
    have ctx: "take (length lc + k) ?P = lc"
      by (simp only: 0 add_0_right pre)
    have bn0: "binderNames ty ! k = n" using bn 0 by simp
    show ?thesis
      unfolding P by (simp only: lhs ctx bn0) (simp add: fst_mkAuxName 0)
  next
    case (Suc k')
    with k have k': "k' < m" by simp
    have len1: "length lc1 + k' = length lc + k" by (simp add: lc1 Suc)
    have bn1: "binderNames ty ! k = binderNames b ! k'" using bn Suc by simp
    have c1: "(k' < length (tl names)) = (k < length names)" using Suc by auto
    have c2: "k < length names \<Longrightarrow> tl names ! k' = names ! k" using Suc by (simp add: nth_tl)
    from IH [OF k', unfolded len1 nm1 c1] c2 show ?thesis
      unfolding P bn1 nm1 by auto
  qed
qed

lemma peelLctx_names:
  "m \<le> leadingBinders ty \<Longrightarrow> k < m \<Longrightarrow>
   LocalDecl_userName (peelLctx orc m lc fvars j names ty g ! (length lc + k)) =
     (if k < length names \<and> names ! k \<noteq> mkAuxName_closed_1 then names ! k
      else getUnusedName orc (take (length lc + k) (peelLctx orc m lc fvars j names ty g))
             (binderNames ty ! k))"
proof (induction m arbitrary: lc fvars names ty g k)
  case 0
  then show ?case by simp
next
  case (Suc m)
  show ?case
  proof (cases ty)
    case (forallE n d b dat)
    with Suc.prems have le: "m \<le> leadingBinders b" by simp
    show ?thesis
    proof (rule peelLctx_names_step [where n = n and b = b, OF _ _ _ _ _ le Suc.prems(2)])
      show "peelLctx orc (Suc m) lc fvars j names ty g =
        peelLctx orc m
          (mk_local_decl lc (num (namePrefix g) (idx g)) (fst (mkAuxName orc lc n names))
             (instantiateRevRange d j (length fvars) fvars) (binderInfo dat))
          (fvars @ [fvar (num (namePrefix g) (idx g))]) j (snd (mkAuxName orc lc n names)) b
          (g\<lparr>idx := Suc (idx g)\<rparr>)"
        using forallE by simp
      show "mk_local_decl lc (num (namePrefix g) (idx g)) (fst (mkAuxName orc lc n names))
             (instantiateRevRange d j (length fvars) fvars) (binderInfo dat)
          = lc @ [cdecl (length lc) (num (namePrefix g) (idx g)) (fst (mkAuxName orc lc n names))
             (instantiateRevRange d j (length fvars) fvars) (binderInfo dat)]"
        by (simp add: mk_local_decl_def)
      show "LocalDecl_userName (cdecl (length lc) (num (namePrefix g) (idx g))
             (fst (mkAuxName orc lc n names))
             (instantiateRevRange d j (length fvars) fvars) (binderInfo dat))
          = fst (mkAuxName orc lc n names)" by simp
      show "snd (mkAuxName orc lc n names) = tl names" by (rule snd_mkAuxName)
      show "binderNames ty = n # binderNames b" using forallE by simp
    qed (rule Suc.IH [OF le])
  next
    case (letE n t v b)
    with Suc.prems have le: "m \<le> leadingBinders b" by simp
    show ?thesis
    proof (rule peelLctx_names_step [where n = n and b = b, OF _ _ _ _ _ le Suc.prems(2)])
      show "peelLctx orc (Suc m) lc fvars j names ty g =
        peelLctx orc m
          (mk_let_decl lc (num (namePrefix g) (idx g)) (fst (mkAuxName orc lc n names))
             (instantiateRevRange t j (length fvars) fvars)
             (instantiateRevRange v j (length fvars) fvars))
          (fvars @ [fvar (num (namePrefix g) (idx g))]) j (snd (mkAuxName orc lc n names)) b
          (g\<lparr>idx := Suc (idx g)\<rparr>)"
        using letE by simp
      show "mk_let_decl lc (num (namePrefix g) (idx g)) (fst (mkAuxName orc lc n names))
             (instantiateRevRange t j (length fvars) fvars)
             (instantiateRevRange v j (length fvars) fvars)
          = lc @ [ldecl (length lc) (num (namePrefix g) (idx g)) (fst (mkAuxName orc lc n names))
             (instantiateRevRange t j (length fvars) fvars)
             (instantiateRevRange v j (length fvars) fvars)]"
        by (simp add: mk_let_decl_def)
      show "LocalDecl_userName (ldecl (length lc) (num (namePrefix g) (idx g))
             (fst (mkAuxName orc lc n names))
             (instantiateRevRange t j (length fvars) fvars)
             (instantiateRevRange v j (length fvars) fvars))
          = fst (mkAuxName orc lc n names)" by simp
      show "snd (mkAuxName orc lc n names) = tl names" by (rule snd_mkAuxName)
      show "binderNames ty = n # binderNames b" using letE by simp
    qed (rule Suc.IH [OF le])
  qed (use Suc.prems in simp_all)
qed

lemma Array_umapMAux_map: "Array_umapMAux i xs = map Expr_fvarId_x21 (drop i xs)"
proof (induction i xs rule: Array_umapMAux.induct)
  case (1 i xs)
  show ?case
  proof (cases "i < length xs")
    case True
    with "1.IH" show ?thesis
      by (subst Array_umapMAux.simps) (simp add: Cons_nth_drop_Suc [symmetric])
  next
    case False
    then show ?thesis by (subst Array_umapMAux.simps) simp
  qed
qed

lemma Array_umapMAux_fvars [simp]: "Array_umapMAux 0 (map fvar xs) = xs"
  by (simp add: Array_umapMAux_map comp_def)

lemma withNewLocalInstances_done:
  "\<not> i < length fvars \<Longrightarrow> withNewLocalInstances orc fvars i k ctx s = k ctx s"
  by (subst withNewLocalInstances.simps) simp

lemma withNewLocalInstances_succeeds:
  assumes cq: "\<And>e. succeedsKeepingDecls (isClassQuick orc e)"
    and ce: "\<And>e. succeedsKeepingDecls (isClassExpensive orc e)"
    and Qr: "\<And>v r. Q r \<Longrightarrow> Q (restoreSynthInstance v r)"
  shows "(\<And>k. i \<le> k \<Longrightarrow> k < length fvars \<Longrightarrow>
            LocalContext_find (lctx ctx) (Expr_fvarId_x21 (fvars ! k)) \<noteq> None) \<Longrightarrow>
         (\<And>c st. lctx c = lctx ctx \<Longrightarrow>
            (\<forall>m d. decls (mctx s) m = Some d \<longrightarrow> decls (mctx st) m = Some d) \<Longrightarrow>
            Q (kont c st)) \<Longrightarrow>
         Q (withNewLocalInstances orc fvars i kont ctx s)"
proof (induction "length fvars - i" arbitrary: i ctx s)
  case 0
  then have "\<not> i < length fvars" by simp
  with "0.prems"(2) [of ctx s] show ?case
    by (simp add: withNewLocalInstances_done)
next
  case (Suc n)
  then have lt: "i < length fvars" by arith
  from Suc.prems(1) [of i] lt obtain decl
    where fnd: "LocalContext_find (lctx ctx) (Expr_fvarId_x21 (fvars ! i)) = Some decl"
    by auto
  then have gf: "getFVarLocalDecl (fvars ! i) ctx s = ok decl s"
    by (simp add: getFVarLocalDecl_def)
  from cq [of "LocalDecl_type decl"] obtain c s2
    where q: "isClassQuick orc (LocalDecl_type decl) ctx s = ok c s2"
      and p2: "\<forall>m d. decls (mctx s) m = Some d \<longrightarrow> decls (mctx s2) m = Some d"
    unfolding succeedsKeepingDecls_def by blast
  have step: "Q (withNewLocalInstances orc fvars (i + 1) kont ctx' s')"
    if lc: "lctx ctx' = lctx ctx"
      and p: "\<forall>m d. decls (mctx s) m = Some d \<longrightarrow> decls (mctx s') m = Some d"
    for ctx' s'
  proof (rule Suc.hyps(1))
    from Suc.hyps(2) show "n = length fvars - (i + 1)" by arith
  next
    fix k assume "i + 1 \<le> k" "k < length fvars"
    with Suc.prems(1) [of k] lc
    show "LocalContext_find (lctx ctx') (Expr_fvarId_x21 (fvars ! k)) \<noteq> None" by simp
  next
    fix c :: Context and st :: State
    assume "lctx c = lctx ctx'"
      and "\<forall>m d. decls (mctx s') m = Some d \<longrightarrow> decls (mctx st) m = Some d"
    with lc p show "Q (kont c st)" by (intro Suc.prems(2)) auto
  qed
  show ?case
  proof (cases c)
    case lnone
    with lt gf q step [OF refl p2] show ?thesis
      by (subst withNewLocalInstances.simps) simp
  next
    case (lsome cn)
    have "Q (withNewLocalInstances orc fvars (i + 1) kont
            (ctx\<lparr>localInstances := localInstances ctx @ [\<lparr>className = cn, instFVar = fvars ! i\<rparr>]\<rparr>)
            (resetSynthInstance s2))"
      using p2 by (intro step) simp_all
    from Qr [OF this] lsome lt gf q show ?thesis
      by (subst withNewLocalInstances.simps) simp
  next
    case lundef
    from ce [of "LocalDecl_type decl"] obtain c3 s3
      where x: "isClassExpensive orc (LocalDecl_type decl) ctx s2 = ok c3 s3"
        and p3: "\<forall>m d. decls (mctx s2) m = Some d \<longrightarrow> decls (mctx s3) m = Some d"
      unfolding succeedsKeepingDecls_def by blast
    from p2 p3 have p23: "\<forall>m d. decls (mctx s) m = Some d \<longrightarrow> decls (mctx s3) m = Some d"
      by blast
    show ?thesis
    proof (cases c3)
      case None
      with lundef lt gf q x step [OF refl p23] show ?thesis
        by (subst withNewLocalInstances.simps) simp
    next
      case (Some cn)
      have "Q (withNewLocalInstances orc fvars (i + 1) kont
            (ctx\<lparr>localInstances := localInstances ctx @ [\<lparr>className = cn, instFVar = fvars ! i\<rparr>]\<rparr>)
            (resetSynthInstance s3))"
        using p23 by (intro step) simp_all
      from Qr [OF this] Some lundef lt gf q x show ?thesis
        by (subst withNewLocalInstances.simps) simp
    qed
  qed
qed

lemma closeGoal_succeeds:
  assumes d: "decls (mctx st) g = Some d"
    and ml: "\<And>xs e. succeedsKeepingDecls (mkLambda orc xs e)"
  shows "\<exists>g' s' d'. closeGoal orc g ty fvars c st = ok (fvars, g') s'
           \<and> decls (mctx s') g' = Some d' \<and> mdecl_type d' = ty \<and> mdecl_lctx d' = lctx c
           \<and> userName d' = userName d \<and> eAssignment (mctx s') g \<noteq> None"
proof -
  let ?g' = "num (namePrefix (ngen st)) (idx (ngen st))"
  let ?d' = "\<lparr>userName = userName d, mdecl_lctx = lctx c, mdecl_type = ty, mdecl_depth = 0,
               mdecl_localInstances = localInstances c, mdecl_kind = 2\<rparr>"
  let ?s1 = "snd (mkFreshExprMVar ty (userName d) 2 c st)"
  have f: "fst (mkFreshExprMVar ty (userName d) 2 c st) = mvar ?g'"
    by (simp add: mkFreshExprMVar_def mkFreshId_def Let_def)
  have d1: "decls (mctx ?s1) ?g' = Some ?d'"
    by (simp add: mkFreshExprMVar_def mkFreshId_def Let_def)
  from ml [of fvars "mvar ?g'"] obtain v s2
    where m: "mkLambda orc fvars (mvar ?g') c ?s1 = ok v s2"
      and p: "\<forall>m d. decls (mctx ?s1) m = Some d \<longrightarrow> decls (mctx s2) m = Some d"
    unfolding succeedsKeepingDecls_def by blast
  from p d1 have d2: "decls (mctx s2) ?g' = Some ?d'" by blast
  have "closeGoal orc g ty fvars c st
      = ok (fvars, ?g') (s2\<lparr>mctx := MetavarContext_assignExpr (mctx s2) g v\<rparr>)"
    using d m f
    by (simp add: closeGoal_def getMVarTag_def getMVarDecl_def introNCoreAux_lambda_2_def Let_def)
  with d2 show ?thesis
    by (simp add: MetavarContext_assignExpr_def)
qed

lemma introNCoreAux_0:
  "introNCoreAux orc g 0 lc fvars j names ty ctx s =
     withNewLocalInstances orc fvars j
       (closeGoal orc g (instantiateRevRange ty j (length fvars) fvars) fvars)
       (ctx\<lparr>lctx := lc\<rparr>) s"
  by (simp add: closeGoal_def [abs_def])

lemma introN_lift:
  assumes dec: "decls (mctx s) g = Some d"
    and body: "\<And>s0. mctx s0 = mctx s \<Longrightarrow> ngen s0 = ngen s \<Longrightarrow>
       Q (introNCore_body orc g n names (mdecl_lctx d)
            (ctx\<lparr>lctx := mdecl_lctx d, localInstances := mdecl_localInstances d\<rparr>) s0)"
    and Qr: "\<And>v r. Q r \<Longrightarrow> Q (restoreSynthInstance v r)"
  shows "Q (introN orc g n names ctx s)"
proof -
  have a: "Q (introNCore_body orc g n names (mdecl_lctx d)
            (ctx\<lparr>lctx := mdecl_lctx d, localInstances := mdecl_localInstances d\<rparr>) s)"
    by (rule body) simp_all
  have b: "Q (restoreSynthInstance (synthInstance (cache s))
            (introNCore_body orc g n names (mdecl_lctx d)
              (ctx\<lparr>lctx := mdecl_lctx d, localInstances := mdecl_localInstances d\<rparr>)
              (resetSynthInstance s)))"
    by (rule Qr, rule body) simp_all
  from a b dec show ?thesis
    by (simp add: introN_def introNCore_def getMVarDecl_def)
qed

lemma introNCore_body_unfold:
  assumes "decls (mctx s0) g = Some d" and "eAssignment (mctx s0) g = None"
  shows "introNCore_body orc g n names lc ctx s0 =
     (case introNCoreAux orc g n lc [] 0 names (mdecl_type d) ctx s0 of
        error e s3 \<Rightarrow> error e s3
      | ok r s3 \<Rightarrow> ok (Array_umapMAux 0 (fst r), snd r) s3)"
  using assms
  by (simp add: introNCore_body_def checkNotAssigned_def getMVarType_def getMVarDecl_def)

lemma introNCoreAux_syntactic:
  assumes "n \<le> leadingBinders ty"
  shows "introNCoreAux orc g n lc [] 0 names ty ctx s =
     withNewLocalInstances orc (map fvar (freshIds (ngen s) n)) 0
       (closeGoal orc g (instantiateRevAux (map fvar (freshIds (ngen s) n)) 0 (nthBody n ty))
          (map fvar (freshIds (ngen s) n)))
       (ctx\<lparr>lctx := peelLctx orc n lc [] 0 names ty (ngen s)\<rparr>) (advanceNGen n s)"
  using introNCoreAux_peel [OF assms, of orc g 0 lc "[]" 0 names ctx s]
  by (simp add: introNCoreAux_0 instantiateRevRange_def del: introNCoreAux.simps)

lemma introNCore_body_success:
  assumes dec: "decls (mctx s0) g = Some d"
    and una: "eAssignment (mctx s0) g = None"
    and n: "n \<le> leadingBinders (mdecl_type d)"
    and cq: "\<And>e. succeedsKeepingDecls (isClassQuick orc e)"
    and ce: "\<And>e. succeedsKeepingDecls (isClassExpensive orc e)"
    and ml: "\<And>xs e. succeedsKeepingDecls (mkLambda orc xs e)"
  shows "\<exists>g' s' d'. introNCore_body orc g n names lc ctx s0 = ok (freshIds (ngen s0) n, g') s'
           \<and> decls (mctx s') g' = Some d'
           \<and> mdecl_type d' = instantiateRevAux (map fvar (freshIds (ngen s0) n)) 0
                                (nthBody n (mdecl_type d))
           \<and> mdecl_lctx d' = peelLctx orc n lc [] 0 names (mdecl_type d) (ngen s0)
           \<and> userName d' = userName d \<and> eAssignment (mctx s') g \<noteq> None"
proof -
  let ?F = "map fvar (freshIds (ngen s0) n)"
  let ?T = "instantiateRevAux ?F 0 (nthBody n (mdecl_type d))"
  let ?lc = "peelLctx orc n lc [] 0 names (mdecl_type d) (ngen s0)"
  define Q where "Q = (\<lambda>r. \<exists>g' s' d'. r = ok (?F, g') s'
           \<and> decls (mctx s') g' = Some d' \<and> mdecl_type d' = ?T \<and> mdecl_lctx d' = ?lc
           \<and> userName d' = userName d \<and> eAssignment (mctx s') g \<noteq> None)"
  have Qr: "Q (restoreSynthInstance v r)" if "Q r" for v r
    using that unfolding Q_def by auto
  have "Q (withNewLocalInstances orc ?F 0 (closeGoal orc g ?T ?F)
            (ctx\<lparr>lctx := ?lc\<rparr>) (advanceNGen n s0))"
  proof (rule withNewLocalInstances_succeeds [where Q = Q, OF cq ce Qr])
    fix k assume "k < length ?F"
    then have k: "k < n" by simp
    from peelLctx_finds [OF n k, of orc lc "[]" 0 names "ngen s0"] k
    show "LocalContext_find (lctx (ctx\<lparr>lctx := ?lc\<rparr>)) (Expr_fvarId_x21 (?F ! k)) \<noteq> None"
      by simp
  next
    fix c :: Context and st :: State
    assume lc: "lctx c = lctx (ctx\<lparr>lctx := ?lc\<rparr>)"
      and p: "\<forall>m d. decls (mctx (advanceNGen n s0)) m = Some d \<longrightarrow> decls (mctx st) m = Some d"
    from p dec have "decls (mctx st) g = Some d" by simp
    from closeGoal_succeeds [OF this ml, of ?T ?F c] lc
    show "Q (closeGoal orc g ?T ?F c st)" unfolding Q_def by simp
  qed
  then obtain g' s' d' where
    r: "introNCoreAux orc g n lc [] 0 names (mdecl_type d) ctx s0 = ok (?F, g') s'"
    and rest: "decls (mctx s') g' = Some d'" "mdecl_type d' = ?T" "mdecl_lctx d' = ?lc"
      "userName d' = userName d" "eAssignment (mctx s') g \<noteq> None"
    unfolding Q_def introNCoreAux_syntactic [OF n] by blast
  from r rest show ?thesis
    unfolding introNCore_body_unfold [OF dec una] by simp
qed

lemma introN_success:
  assumes dec: "decls (mctx s) g = Some d"
    and una: "eAssignment (mctx s) g = None"
    and n: "n \<le> leadingBinders (mdecl_type d)"
    and cq: "\<And>e. succeedsKeepingDecls (isClassQuick orc e)"
    and ce: "\<And>e. succeedsKeepingDecls (isClassExpensive orc e)"
    and ml: "\<And>xs e. succeedsKeepingDecls (mkLambda orc xs e)"
  shows "\<exists>g' s' d'. introN orc g n names ctx s = ok (freshIds (ngen s) n, g') s'
           \<and> decls (mctx s') g' = Some d'
           \<and> mdecl_type d' = instantiateRevAux (map fvar (freshIds (ngen s) n)) 0
                                (nthBody n (mdecl_type d))
           \<and> mdecl_lctx d' = peelLctx orc n (mdecl_lctx d) [] 0 names (mdecl_type d) (ngen s)
           \<and> userName d' = userName d \<and> eAssignment (mctx s') g \<noteq> None"
proof (rule introN_lift [OF dec])
  fix s0 :: State
  assume m: "mctx s0 = mctx s" and g: "ngen s0 = ngen s"
  from introNCore_body_success [of s0 g d n orc names "mdecl_lctx d"
      "ctx\<lparr>lctx := mdecl_lctx d, localInstances := mdecl_localInstances d\<rparr>"]
    dec una n cq ce ml m g
  show "\<exists>g' s' d'. introNCore_body orc g n names (mdecl_lctx d)
            (ctx\<lparr>lctx := mdecl_lctx d, localInstances := mdecl_localInstances d\<rparr>) s0
            = ok (freshIds (ngen s) n, g') s'
           \<and> decls (mctx s') g' = Some d'
           \<and> mdecl_type d' = instantiateRevAux (map fvar (freshIds (ngen s) n)) 0
                                (nthBody n (mdecl_type d))
           \<and> mdecl_lctx d' = peelLctx orc n (mdecl_lctx d) [] 0 names (mdecl_type d) (ngen s)
           \<and> userName d' = userName d \<and> eAssignment (mctx s') g \<noteq> None"
    by simp
next
  fix v and r :: "(FVarId list \<times> MVarId) Result"
  assume "\<exists>g' s' d'. r = ok (freshIds (ngen s) n, g') s'
           \<and> decls (mctx s') g' = Some d'
           \<and> mdecl_type d' = instantiateRevAux (map fvar (freshIds (ngen s) n)) 0
                                (nthBody n (mdecl_type d))
           \<and> mdecl_lctx d' = peelLctx orc n (mdecl_lctx d) [] 0 names (mdecl_type d) (ngen s)
           \<and> userName d' = userName d \<and> eAssignment (mctx s') g \<noteq> None"
  then show "\<exists>g' s' d'. restoreSynthInstance v r = ok (freshIds (ngen s) n, g') s'
           \<and> decls (mctx s') g' = Some d'
           \<and> mdecl_type d' = instantiateRevAux (map fvar (freshIds (ngen s) n)) 0
                                (nthBody n (mdecl_type d))
           \<and> mdecl_lctx d' = peelLctx orc n (mdecl_lctx d) [] 0 names (mdecl_type d) (ngen s)
           \<and> userName d' = userName d \<and> eAssignment (mctx s') g \<noteq> None"
    by auto
qed

lemma introNCoreAux_default:
  "leadingBinders ty = 0 \<Longrightarrow>
   introNCoreAux orc g (Suc i) lc fvars j names ty ctx s =
     withNewLocalInstances orc fvars j
       (\<lambda>c st. case whnf orc (instantiateRevRange ty j (length fvars) fvars) c st of
                  error e st1 \<Rightarrow> error e st1
                | ok newType st1 \<Rightarrow>
                    if Expr_isForall newType
                    then introNCoreAux orc g i lc fvars (length fvars) names newType c st1
                    else throwTacticEx introN_closed_2 g introN_closed_3 c st1)
       (ctx\<lparr>lctx := lc\<rparr>) s"
  by (cases ty) simp_all

lemma introNCoreAux_runs_out:
  assumes m: "leadingBinders ty = m"
  shows "introNCoreAux orc g (m + Suc r) lc [] 0 names ty ctx s =
     withNewLocalInstances orc (map fvar (freshIds (ngen s) m)) 0
       (\<lambda>c st. case whnf orc
                    (instantiateRevAux (map fvar (freshIds (ngen s) m)) 0 (nthBody m ty)) c st of
                  error e st1 \<Rightarrow> error e st1
                | ok newType st1 \<Rightarrow>
                    if Expr_isForall newType
                    then introNCoreAux orc g r (peelLctx orc m lc [] 0 names ty (ngen s))
                           (map fvar (freshIds (ngen s) m)) m (drop m names) newType c st1
                    else throwTacticEx introN_closed_2 g introN_closed_3 c st1)
       (ctx\<lparr>lctx := peelLctx orc m lc [] 0 names ty (ngen s)\<rparr>) (advanceNGen m s)"
proof -
  from m have le: "m \<le> leadingBinders ty" by simp
  from m have z: "leadingBinders (nthBody m ty) = 0"
    by (simp add: nthBody_leadingBinders [OF le])
  have p: "introNCoreAux orc g (m + Suc r) lc [] 0 names ty ctx s =
      introNCoreAux orc g (Suc r) (peelLctx orc m lc [] 0 names ty (ngen s))
        (map fvar (freshIds (ngen s) m)) 0 (drop m names) (nthBody m ty) ctx (advanceNGen m s)"
    using introNCoreAux_peel [OF le, of orc g "Suc r" lc "[]" 0 names ctx s]
    by (simp del: introNCoreAux.simps)
  show ?thesis
    unfolding p introNCoreAux_default [OF z]
    by (simp add: instantiateRevRange_def cong: Result.case_cong if_cong)
qed

lemma resetSynthInstance_idem [simp]:
  "resetSynthInstance (resetSynthInstance s) = resetSynthInstance s"
  by (simp add: resetSynthInstance_def)

lemma synthInstance_resetSynthInstance [simp]:
  "synthInstance (cache (resetSynthInstance s)) = []"
  by (simp add: resetSynthInstance_def)

lemma restoreSynthInstance_twice [simp]:
  "restoreSynthInstance a (restoreSynthInstance b r) = restoreSynthInstance a r"
  by (cases r) simp_all

lemma newInstances_done: "\<not> i < length fvars \<Longrightarrow> newInstances q x lc fvars i = []"
  by (simp add: newInstances_def map_filter_simps)

lemma newInstances_step:
  "i < length fvars \<Longrightarrow>
   newInstances q x lc fvars i =
     (case instanceOf q x lc (fvars ! i) of
        None \<Rightarrow> newInstances q x lc fvars (i + 1)
      | Some li \<Rightarrow> li # newInstances q x lc fvars (i + 1))"
  by (simp add: newInstances_def Cons_nth_drop_Suc [symmetric] map_filter_simps
      split: option.split)

lemma withNewLocalInstances_pass:
  assumes pure: "classifierPure orc q x"
  shows "(\<And>k. i \<le> k \<Longrightarrow> k < length fvars \<Longrightarrow>
            LocalContext_find (lctx ctx) (Expr_fvarId_x21 (fvars ! k)) \<noteq> None) \<Longrightarrow>
     withNewLocalInstances orc fvars i kont ctx s =
       (if newInstances q x (lctx ctx) fvars i = [] then kont ctx s
        else restoreSynthInstance (synthInstance (cache s))
               (kont (ctx\<lparr>localInstances := localInstances ctx @ newInstances q x (lctx ctx) fvars i\<rparr>)
                  (resetSynthInstance s)))"
proof (induction "length fvars - i" arbitrary: i ctx s)
  case 0
  then have "\<not> i < length fvars" by simp
  then show ?case by (simp add: withNewLocalInstances_done newInstances_done)
next
  case (Suc n)
  then have lt: "i < length fvars" by arith
  from Suc.prems [of i] lt obtain decl
    where fnd: "LocalContext_find (lctx ctx) (Expr_fvarId_x21 (fvars ! i)) = Some decl"
    by auto
  then have gf: "getFVarLocalDecl (fvars ! i) ctx s = ok decl s"
    by (simp add: getFVarLocalDecl_def)
  from pure have cq: "\<And>e c s. isClassQuick orc e c s = ok (q e) s"
    and ce: "\<And>e c s. isClassExpensive orc e c s = ok (x e) s"
    by (simp_all add: classifierPure_def)
  have IH: "withNewLocalInstances orc fvars (i + 1) kont ctx' s' =
       (if newInstances q x (lctx ctx) fvars (i + 1) = [] then kont ctx' s'
        else restoreSynthInstance (synthInstance (cache s'))
               (kont (ctx'\<lparr>localInstances := localInstances ctx' @
                        newInstances q x (lctx ctx) fvars (i + 1)\<rparr>)
                  (resetSynthInstance s')))"
    if lc: "lctx ctx' = lctx ctx" for ctx' s'
  proof -
    have "withNewLocalInstances orc fvars (i + 1) kont ctx' s' =
       (if newInstances q x (lctx ctx') fvars (i + 1) = [] then kont ctx' s'
        else restoreSynthInstance (synthInstance (cache s'))
               (kont (ctx'\<lparr>localInstances := localInstances ctx' @
                        newInstances q x (lctx ctx') fvars (i + 1)\<rparr>)
                  (resetSynthInstance s')))"
    proof (rule Suc.hyps(1))
      from Suc.hyps(2) show "n = length fvars - (i + 1)" by arith
    next
      fix k assume "i + 1 \<le> k" "k < length fvars"
      with Suc.prems [of k] lc
      show "LocalContext_find (lctx ctx') (Expr_fvarId_x21 (fvars ! k)) \<noteq> None" by simp
    qed
    then show ?thesis by (simp only: lc)
  qed
  let ?rest = "newInstances q x (lctx ctx) fvars (i + 1)"
  show ?case
  proof (cases "classify q x (LocalDecl_type decl)")
    case None
    then have io: "instanceOf q x (lctx ctx) (fvars ! i) = None"
      by (simp add: instanceOf_def fnd)
    have ni: "newInstances q x (lctx ctx) fvars i = ?rest"
      by (simp add: newInstances_step [OF lt] io)
    from None have "withNewLocalInstances orc fvars i kont ctx s
        = withNewLocalInstances orc fvars (i + 1) kont ctx s"
      by (subst withNewLocalInstances.simps)
        (simp add: lt gf cq ce classify_def split: LOption.splits)
    then show ?thesis by (simp only: ni IH [OF refl])
  next
    case (Some cn)
    let ?li = "\<lparr>className = cn, instFVar = fvars ! i\<rparr>"
    let ?ctx' = "ctx\<lparr>localInstances := localInstances ctx @ [?li]\<rparr>"
    from Some have io: "instanceOf q x (lctx ctx) (fvars ! i) = Some ?li"
      by (simp add: instanceOf_def fnd)
    have ni: "newInstances q x (lctx ctx) fvars i = ?li # ?rest"
      by (simp add: newInstances_step [OF lt] io)
    from Some have "withNewLocalInstances orc fvars i kont ctx s
        = restoreSynthInstance (synthInstance (cache s))
            (withNewLocalInstances orc fvars (i + 1) kont ?ctx' (resetSynthInstance s))"
      by (subst withNewLocalInstances.simps)
        (simp add: lt gf cq ce classify_def split: LOption.splits)
    also have "withNewLocalInstances orc fvars (i + 1) kont ?ctx' (resetSynthInstance s)
        = (if ?rest = [] then kont ?ctx' (resetSynthInstance s)
           else restoreSynthInstance []
                  (kont (ctx\<lparr>localInstances := localInstances ctx @ ?li # ?rest\<rparr>)
                     (resetSynthInstance s)))"
      by (subst IH) simp_all
    finally show ?thesis by (simp add: ni)
  qed
qed

lemma errorKeepsMCtx_restore:
  "errorKeepsMCtx m r \<Longrightarrow> errorKeepsMCtx m (restoreSynthInstance v r)"
  by (cases r) (simp_all add: errorKeepsMCtx_def)

lemma keepsMCtx_ok: "keepsMCtx act \<Longrightarrow> act c s = ok a s' \<Longrightarrow> mctx s' = mctx s"
  by (auto simp add: keepsMCtx_def resultState_def split: Result.splits dest!: spec [of _ c] spec [of _ s])

lemma keepsMCtx_error: "keepsMCtx act \<Longrightarrow> act c s = error e s' \<Longrightarrow> mctx s' = mctx s"
  by (auto simp add: keepsMCtx_def resultState_def split: Result.splits dest!: spec [of _ c] spec [of _ s])

lemma mctx_mkFreshId [simp]: "mctx (snd (mkFreshId s)) = mctx s"
  by (simp add: mkFreshId_def)

lemma withNewLocalInstances_errorKeeps:
  assumes cq: "\<And>e. keepsMCtx (isClassQuick orc e)"
    and ce: "\<And>e. keepsMCtx (isClassExpensive orc e)"
  shows "mctx s = m \<Longrightarrow>
         (\<And>c st. mctx st = m \<Longrightarrow> errorKeepsMCtx m (kont c st)) \<Longrightarrow>
         errorKeepsMCtx m (withNewLocalInstances orc fvars i kont ctx s)"
proof (induction "length fvars - i" arbitrary: i ctx s)
  case 0
  then have "\<not> i < length fvars" by simp
  with "0.prems" show ?case
    by (simp add: withNewLocalInstances_done)
next
  case (Suc n)
  then have lt: "i < length fvars" by arith
  have step: "errorKeepsMCtx m (withNewLocalInstances orc fvars (i + 1) kont ctx' s')"
    if "mctx s' = m" for ctx' s'
  proof (rule Suc.hyps(1))
    from Suc.hyps(2) show "n = length fvars - (i + 1)" by arith
  qed (use that Suc.prems(2) in auto)
  show ?case
  proof (cases "LocalContext_find (lctx ctx) (Expr_fvarId_x21 (fvars ! i))")
    case None
    with lt Suc.prems(1) show ?thesis
      by (subst withNewLocalInstances.simps)
        (simp add: getFVarLocalDecl_def errorKeepsMCtx_def)
  next
    case (Some decl)
    then have gf: "getFVarLocalDecl (fvars ! i) ctx s = ok decl s"
      by (simp add: getFVarLocalDecl_def)
    show ?thesis
    proof (cases "isClassQuick orc (LocalDecl_type decl) ctx s")
      case (error e s2)
      from keepsMCtx_error [OF cq this] Suc.prems(1) error lt gf show ?thesis
        by (subst withNewLocalInstances.simps) (simp add: errorKeepsMCtx_def)
    next
      case (ok c s2)
      from keepsMCtx_ok [OF cq this] Suc.prems(1) have m2: "mctx s2 = m" by simp
      show ?thesis
      proof (cases c)
        case lnone
        with ok lt gf step [OF m2] show ?thesis
          by (subst withNewLocalInstances.simps) simp
      next
        case (lsome cn)
        from m2 have "mctx (resetSynthInstance s2) = m" by simp
        from errorKeepsMCtx_restore [OF step [OF this]] lsome ok lt gf show ?thesis
          by (subst withNewLocalInstances.simps) simp
      next
        case lundef
        show ?thesis
        proof (cases "isClassExpensive orc (LocalDecl_type decl) ctx s2")
          case (error e s3)
          from keepsMCtx_error [OF ce this] m2 error lundef ok lt gf show ?thesis
            by (subst withNewLocalInstances.simps) (simp add: errorKeepsMCtx_def)
        next
          case x: (ok c3 s3)
          from keepsMCtx_ok [OF ce this] m2 have m3: "mctx s3 = m" by simp
          show ?thesis
          proof (cases c3)
            case None
            with x lundef ok lt gf step [OF m3] show ?thesis
              by (subst withNewLocalInstances.simps) simp
          next
            case (Some cn)
            from m3 have "mctx (resetSynthInstance s3) = m" by simp
            from errorKeepsMCtx_restore [OF step [OF this]] Some x lundef ok lt gf
            show ?thesis
              by (subst withNewLocalInstances.simps) simp
          qed
        qed
      qed
    qed
  qed
qed

lemma closeGoal_errorKeeps:
  assumes ml: "\<And>xs e c st. resultError (mkLambda orc xs e c st) = None"
    and m: "mctx st = m"
  shows "errorKeepsMCtx m (closeGoal orc g ty fvars c st)"
proof (cases "decls (mctx st) g")
  case None
  with m show ?thesis
    by (simp add: closeGoal_def getMVarTag_def getMVarDecl_def errorKeepsMCtx_def)
next
  case (Some d)
  let ?mv = "fst (mkFreshExprMVar ty (userName d) 2 c st)"
  let ?s1 = "snd (mkFreshExprMVar ty (userName d) 2 c st)"
  from ml [of fvars ?mv c ?s1] obtain v s2 where "mkLambda orc fvars ?mv c ?s1 = ok v s2"
    by (cases "mkLambda orc fvars ?mv c ?s1") (simp_all add: resultError_def)
  with Some show ?thesis
    by (simp add: closeGoal_def getMVarTag_def getMVarDecl_def errorKeepsMCtx_def
        introNCoreAux_lambda_2_def Let_def)
qed

lemma introNCoreAux_errorKeeps:
  assumes wh: "\<And>e. keepsMCtx (whnf orc e)"
    and cq: "\<And>e. keepsMCtx (isClassQuick orc e)"
    and ce: "\<And>e. keepsMCtx (isClassExpensive orc e)"
    and ml: "\<And>xs e c st. resultError (mkLambda orc xs e c st) = None"
  shows "mctx s = m \<Longrightarrow>
         errorKeepsMCtx m (introNCoreAux orc g n lc fvars j names ty ctx s)"
proof (induction n arbitrary: lc fvars j names ty ctx s)
  case 0
  show ?case
    unfolding introNCoreAux_0
    by (rule withNewLocalInstances_errorKeeps [OF cq ce "0.prems"])
      (rule closeGoal_errorKeeps [OF ml])
next
  case (Suc n)
  consider (fa) "\<exists>nm t b dat. ty = forallE nm t b dat" | (lt) "\<exists>nm t v b. ty = letE nm t v b"
    | (other) "leadingBinders ty = 0"
    by (cases ty) auto
  then show ?case
  proof cases
    case fa
    then obtain nm t b dat where ty: "ty = forallE nm t b dat" by blast
    from Suc.prems have "mctx (snd (mkFreshId s)) = m" by simp
    from Suc.IH [OF this] show ?thesis by (simp add: ty)
  next
    case lt
    then obtain nm t v b where ty: "ty = letE nm t v b" by blast
    from Suc.prems have "mctx (snd (mkFreshId s)) = m" by simp
    from Suc.IH [OF this] show ?thesis by (simp add: ty)
  next
    case other
    show ?thesis
      unfolding introNCoreAux_default [OF other]
    proof (rule withNewLocalInstances_errorKeeps [OF cq ce Suc.prems])
      fix c :: Context and st :: State
      assume st: "mctx st = m"
      let ?e = "instantiateRevRange ty j (length fvars) fvars"
      show "errorKeepsMCtx m
        (case whnf orc ?e c st of
           error e st1 \<Rightarrow> error e st1
         | ok newType st1 \<Rightarrow>
             if Expr_isForall newType
             then introNCoreAux orc g n lc fvars (length fvars) names newType c st1
             else throwTacticEx introN_closed_2 g introN_closed_3 c st1)"
      proof (cases "whnf orc ?e c st")
        case (error e st1)
        from keepsMCtx_error [OF wh this] st error show ?thesis
          by (simp add: errorKeepsMCtx_def)
      next
        case (ok newType st1)
        from keepsMCtx_ok [OF wh this] st have m1: "mctx st1 = m" by simp
        from Suc.IH [OF m1] m1 ok show ?thesis
          by (simp add: throwTacticEx_def errorKeepsMCtx_def)
      qed
    qed
  qed
qed

lemma introNCore_body_errorKeeps:
  assumes wh: "\<And>e. keepsMCtx (whnf orc e)"
    and cq: "\<And>e. keepsMCtx (isClassQuick orc e)"
    and ce: "\<And>e. keepsMCtx (isClassExpensive orc e)"
    and ml: "\<And>xs e c st. resultError (mkLambda orc xs e c st) = None"
    and m: "mctx s = m"
  shows "errorKeepsMCtx m (introNCore_body orc g n names lc ctx s)"
proof (cases "eAssignment (mctx s) g")
  case (Some v)
  with m show ?thesis
    by (simp add: introNCore_body_def checkNotAssigned_def errorKeepsMCtx_def)
next
  case una: None
  show ?thesis
  proof (cases "decls (mctx s) g")
    case None
    with una m show ?thesis
      by (simp add: introNCore_body_def checkNotAssigned_def getMVarType_def getMVarDecl_def
          errorKeepsMCtx_def)
  next
    case (Some d)
    from introNCoreAux_errorKeeps [OF wh cq ce ml m, of g n lc "[]" 0 names "mdecl_type d" ctx]
    show ?thesis
      unfolding introNCore_body_unfold [OF Some una]
      by (simp add: errorKeepsMCtx_def split: Result.splits)
  qed
qed

lemma introNCore_errorKeeps:
  assumes wh: "\<And>e. keepsMCtx (whnf orc e)"
    and cq: "\<And>e. keepsMCtx (isClassQuick orc e)"
    and ce: "\<And>e. keepsMCtx (isClassExpensive orc e)"
    and ml: "\<And>xs e c st. resultError (mkLambda orc xs e c st) = None"
  shows "errorKeepsMCtx (mctx s) (introNCore orc g n names ctx s)"
proof (cases "decls (mctx s) g")
  case None
  then show ?thesis
    by (simp add: introNCore_def getMVarDecl_def errorKeepsMCtx_def)
next
  case (Some d)
  let ?c = "ctx\<lparr>lctx := mdecl_lctx d, localInstances := mdecl_localInstances d\<rparr>"
  have a: "errorKeepsMCtx (mctx s) (introNCore_body orc g n names (mdecl_lctx d) ?c s)"
    by (rule introNCore_body_errorKeeps [OF wh cq ce ml refl])
  have b: "errorKeepsMCtx (mctx s) (restoreSynthInstance (synthInstance (cache s))
      (introNCore_body orc g n names (mdecl_lctx d) ?c (resetSynthInstance s)))"
    by (rule errorKeepsMCtx_restore, rule introNCore_body_errorKeeps [OF wh cq ce ml]) simp
  from a b Some show ?thesis
    by (simp add: introNCore_def getMVarDecl_def)
qed

section \<open>Properties\<close>

text \<open>
  C3. On a goal that is declared and already has an assignment, \<^verbatim>\<open>introN\<close> fails with
  \<^verbatim>\<open>AlreadyAssigned\<close>, for every count \<open>n\<close> (zero included), every name list and every
  choice of external collaborators. The state returned is the state given: the check comes
  before any binder is peeled, no identifier has been minted and no collaborator consulted.
\<close>

theorem introN_already_assigned:
  assumes "decls (mctx s) g = Some d" and "eAssignment (mctx s) g = Some v"
  shows "introN orc g n names ctx s = error (AlreadyAssigned introN_closed_2 g) s"
  using assms
  by (simp add: introN_def introNCore_def introNCore_body_def getMVarDecl_def
      checkNotAssigned_def)

theorem introN_already_assigned_witness:
  "introN sampleOracles goal0 0 [] ctx0 (stateAssigned tyOne)
     = error (AlreadyAssigned introN_closed_2 goal0) (stateAssigned tyOne)
   \<and> introN sampleOracles goal0 3 [] ctx0 (stateAssigned tyOne)
     = error (AlreadyAssigned introN_closed_2 goal0) (stateAssigned tyOne)"
  using introN_already_assigned [of "stateAssigned tyOne" goal0 "decl0 tyOne"
      "constE (nm ''v'')" sampleOracles 0 "[]" ctx0]
    introN_already_assigned [of "stateAssigned tyOne" goal0 "decl0 tyOne"
      "constE (nm ''v'')" sampleOracles 3 "[]" ctx0]
  by (simp add: stateAssigned_def state0_def)

text \<open>
  C6. Before peeling, \<^verbatim>\<open>introNCore\<close> compares the local instances of the ambient context
  with those declared for the goal. When the two arrays have the same length and agree
  element by element under \<^verbatim>\<open>LocalInstance.beq\<close>, the body (assignment check, peeling)
  runs on the state as it is. In every other case it runs on the state whose memo
  \<^verbatim>\<open>synthInstance\<close> has been replaced by the empty one, and the result is returned, on
  success and on failure, with the memo of the given state written back.
\<close>

theorem introNCore_cache_guard:
  assumes "decls (mctx s) g = Some d"
  shows "introNCore orc g n names ctx s =
     (if length (localInstances ctx) = length (mdecl_localInstances d)
         \<and> (\<forall>k < length (localInstances ctx).
               LocalInstance_beq orc (localInstances ctx ! k) (mdecl_localInstances d ! k))
      then introNCore_body orc g n names (mdecl_lctx d)
             (ctx\<lparr>lctx := mdecl_lctx d, localInstances := mdecl_localInstances d\<rparr>) s
      else
        (case introNCore_body orc g n names (mdecl_lctx d)
                (ctx\<lparr>lctx := mdecl_lctx d, localInstances := mdecl_localInstances d\<rparr>)
                (s\<lparr>cache := (cache s)\<lparr>synthInstance := []\<rparr>\<rparr>) of
           ok a s1 \<Rightarrow> ok a (s1\<lparr>cache := (cache s1)\<lparr>synthInstance := synthInstance (cache s)\<rparr>\<rparr>)
         | error e s1 \<Rightarrow>
             error e (s1\<lparr>cache := (cache s1)\<lparr>synthInstance := synthInstance (cache s)\<rparr>\<rparr>)))"
proof -
  let ?c = "ctx\<lparr>lctx := mdecl_lctx d, localInstances := mdecl_localInstances d\<rparr>"
  let ?code = "length (localInstances ctx) = length (mdecl_localInstances d)
         \<and> Array_isEqvAux orc (localInstances ctx) (mdecl_localInstances d) 0"
  let ?spec = "length (localInstances ctx) = length (mdecl_localInstances d)
         \<and> (\<forall>k < length (localInstances ctx).
               LocalInstance_beq orc (localInstances ctx ! k) (mdecl_localInstances d ! k))"
  have eq: "?code = ?spec"
    by (simp add: Array_isEqvAux_all)
  have u: "introNCore orc g n names ctx s =
      (if ?code then introNCore_body orc g n names (mdecl_lctx d) ?c s
       else restoreSynthInstance (synthInstance (cache s))
              (introNCore_body orc g n names (mdecl_lctx d) ?c (resetSynthInstance s)))"
    unfolding introNCore_def
    by (simp only: getMVarDecl_def assms option.case Result.case)
  show ?thesis
  proof (cases ?spec)
    case True
    with eq have cg: ?code by blast
    show ?thesis by (simp only: u if_P [OF cg] if_P [OF True])
  next
    case False
    with eq have ncg: "\<not> ?code" by blast
    show ?thesis
      by (simp only: u if_not_P [OF ncg] if_not_P [OF False] restoreSynthInstance_def
          resetSynthInstance_def)
  qed
qed

theorem introNCore_cache_guard_witness:
  "introNCore memoOracles goal0 1 [] (ctx0\<lparr>localInstances := [instC]\<rparr>)
      (stateWith [instC] tyOne)
     = introNCore_body memoOracles goal0 1 [] []
         (ctx0\<lparr>lctx := [], localInstances := [instC]\<rparr>) (stateWith [instC] tyOne)
   \<and> traceState (resultState (introNCore memoOracles goal0 1 []
        (ctx0\<lparr>localInstances := [instC]\<rparr>) (stateWith [instC] tyOne))) = [1]
   \<and> introNCore memoOracles goal0 1 [] (ctx0\<lparr>localInstances := [instC]\<rparr>)
      (stateWith [instU] tyOne)
     = (case introNCore_body memoOracles goal0 1 [] []
               (ctx0\<lparr>lctx := [], localInstances := [instU]\<rparr>)
               ((stateWith [instU] tyOne)
                  \<lparr>cache := (cache (stateWith [instU] tyOne))\<lparr>synthInstance := []\<rparr>\<rparr>) of
          ok a s1 \<Rightarrow>
            ok a (s1\<lparr>cache := (cache s1)\<lparr>synthInstance := [(constE (nm ''C''), None)]\<rparr>\<rparr>)
        | error e s1 \<Rightarrow>
            error e (s1\<lparr>cache := (cache s1)\<lparr>synthInstance := [(constE (nm ''C''), None)]\<rparr>\<rparr>))
   \<and> traceState (resultState (introNCore memoOracles goal0 1 []
        (ctx0\<lparr>localInstances := [instC]\<rparr>) (stateWith [instU] tyOne))) = [0]
   \<and> synthInstance (cache (resultState (introNCore memoOracles goal0 1 []
        (ctx0\<lparr>localInstances := [instC]\<rparr>) (stateWith [instU] tyOne))))
     = [(constE (nm ''C''), None)]
   \<and> traceState (resultState (introNCore memoOracles goal0 1 []
        (ctx0\<lparr>localInstances := [instC]\<rparr>) (stateWith [] tyOne))) = [0]
   \<and> traceState (resultState (introNCore memoOracles goal0 1 []
        (ctx0\<lparr>localInstances := [instC, instU]\<rparr>) (stateWith [instC, instC] tyOne))) = [0]"
proof -
  have beq: "\<And>a b. LocalInstance_beq memoOracles a b = (a = b)"
    by (simp add: memoOracles_def sampleOracles_def)
  have ne: "instC \<noteq> instU"
    by (simp add: instC_def instU_def nm_def)
  have dC: "decls (mctx (stateWith [instC] tyOne)) goal0
      = Some ((decl0 tyOne)\<lparr>mdecl_localInstances := [instC]\<rparr>)"
    by (simp add: stateWith_def)
  have dU: "decls (mctx (stateWith [instU] tyOne)) goal0
      = Some ((decl0 tyOne)\<lparr>mdecl_localInstances := [instU]\<rparr>)"
    by (simp add: stateWith_def)
  have memo: "synthInstance (cache (stateWith [instU] tyOne)) = [(constE (nm ''C''), None)]"
    by (simp add: stateWith_def state0_def)
  let ?ctx = "ctx0\<lparr>localInstances := [instC]\<rparr>"
  let ?dC = "(decl0 tyOne)\<lparr>mdecl_localInstances := [instC]\<rparr>"
  let ?dU = "(decl0 tyOne)\<lparr>mdecl_localInstances := [instU]\<rparr>"
  have gC: "length (localInstances ?ctx) = length (mdecl_localInstances ?dC)
      \<and> (\<forall>k < length (localInstances ?ctx).
            LocalInstance_beq memoOracles (localInstances ?ctx ! k) (mdecl_localInstances ?dC ! k))"
    by (simp add: beq)
  have gU: "\<not> (length (localInstances ?ctx) = length (mdecl_localInstances ?dU)
      \<and> (\<forall>k < length (localInstances ?ctx).
            LocalInstance_beq memoOracles (localInstances ?ctx ! k) (mdecl_localInstances ?dU ! k)))"
  proof
    assume "length (localInstances ?ctx) = length (mdecl_localInstances ?dU)
      \<and> (\<forall>k < length (localInstances ?ctx).
            LocalInstance_beq memoOracles (localInstances ?ctx ! k) (mdecl_localInstances ?dU ! k))"
    then have "LocalInstance_beq memoOracles (localInstances ?ctx ! 0) (mdecl_localInstances ?dU ! 0)"
      by simp
    with ne show False by (simp add: beq)
  qed
  have same: "introNCore memoOracles goal0 1 [] (ctx0\<lparr>localInstances := [instC]\<rparr>)
      (stateWith [instC] tyOne)
     = introNCore_body memoOracles goal0 1 [] []
         (ctx0\<lparr>lctx := [], localInstances := [instC]\<rparr>) (stateWith [instC] tyOne)"
    using introNCore_cache_guard [OF dC, of memoOracles 1 "[]" ?ctx, unfolded if_P [OF gC]]
    by (simp add: decl0_def)
  have differ: "introNCore memoOracles goal0 1 [] (ctx0\<lparr>localInstances := [instC]\<rparr>)
      (stateWith [instU] tyOne)
     = (case introNCore_body memoOracles goal0 1 [] []
               (ctx0\<lparr>lctx := [], localInstances := [instU]\<rparr>)
               ((stateWith [instU] tyOne)
                  \<lparr>cache := (cache (stateWith [instU] tyOne))\<lparr>synthInstance := []\<rparr>\<rparr>) of
          ok a s1 \<Rightarrow>
            ok a (s1\<lparr>cache := (cache s1)\<lparr>synthInstance := [(constE (nm ''C''), None)]\<rparr>\<rparr>)
        | error e s1 \<Rightarrow>
            error e (s1\<lparr>cache := (cache s1)\<lparr>synthInstance := [(constE (nm ''C''), None)]\<rparr>\<rparr>))"
    using introNCore_cache_guard [OF dU, of memoOracles 1 "[]" ?ctx, unfolded if_not_P [OF gU] memo]
    by (simp add: decl0_def)
  have t1: "traceState (resultState (introNCore memoOracles goal0 1 []
        (ctx0\<lparr>localInstances := [instC]\<rparr>) (stateWith [instC] tyOne))) = [1]"
    by code_simp
  have t2: "traceState (resultState (introNCore memoOracles goal0 1 []
        (ctx0\<lparr>localInstances := [instC]\<rparr>) (stateWith [instU] tyOne))) = [0]"
    by code_simp
  have t3: "synthInstance (cache (resultState (introNCore memoOracles goal0 1 []
        (ctx0\<lparr>localInstances := [instC]\<rparr>) (stateWith [instU] tyOne))))
     = [(constE (nm ''C''), None)]"
    by code_simp
  have t4: "traceState (resultState (introNCore memoOracles goal0 1 []
        (ctx0\<lparr>localInstances := [instC]\<rparr>) (stateWith [] tyOne))) = [0]"
    by code_simp
  have t5: "traceState (resultState (introNCore memoOracles goal0 1 []
        (ctx0\<lparr>localInstances := [instC, instU]\<rparr>) (stateWith [instC, instC] tyOne))) = [0]"
    by code_simp
  from same t1 differ t2 t3 t4 t5 show ?thesis by (intro conjI)
qed

text \<open>
  C8, at the input on which the code departs from it: the goal's type is the constant
  \<^verbatim>\<open>T\<close>, which the reduction unfolds to \<^verbatim>\<open>forallE x A B\<close>, and \<^verbatim>\<open>intro\<close> is
  called with the name \<^verbatim>\<open>h\<close>. \<^verbatim>\<open>introN\<close> at count 1 with the one-name list returns
  no identifier, and \<^verbatim>\<open>intro\<close> returns the default name with the same new goal, as
  does \<^verbatim>\<open>intro1\<close>: the name returned is no introduced identifier, the local context
  of the new goal is empty, and the new goal still has the whole \<^verbatim>\<open>forallE\<close> as its
  type.
\<close>

theorem intro_returns_default_name:
  "resultValue (introN sampleOracles goal0 1 [nm ''h''] ctx0 (state0 (constE (nm ''T''))))
     = Some ([], num anonymous 0)
   \<and> resultValue (intro sampleOracles goal0 (nm ''h'') ctx0 (state0 (constE (nm ''T''))))
     = Some (anonymous, num anonymous 0)
   \<and> resultValue (intro1 sampleOracles goal0 ctx0 (state0 (constE (nm ''T''))))
     = Some (anonymous, num anonymous 0)
   \<and> map_option mdecl_lctx
       (decls (mctx (resultState (intro sampleOracles goal0 (nm ''h'') ctx0
          (state0 (constE (nm ''T'')))))) (num anonymous 0))
     = Some []
   \<and> map_option mdecl_type
       (decls (mctx (resultState (intro sampleOracles goal0 (nm ''h'') ctx0
          (state0 (constE (nm ''T'')))))) (num anonymous 0))
     = Some (forallE (nm ''x'') (constE (nm ''A'')) (constE (nm ''B'')) 0)"
  by code_simp

text \<open>
  C1. Let the goal be declared and unassigned, let its type have at least \<open>n\<close> leading
  \<^verbatim>\<open>forallE\<close>/\<^verbatim>\<open>letE\<close> binders, and let the class tests and the closing step succeed
  and keep the declared metavariables. Then \<^verbatim>\<open>introN\<close> succeeds; the identifiers it
  returns are the \<open>n\<close> identifiers minted from the name generator of the given state, which
  are pairwise distinct; and the type of the new goal is the original type with the \<open>n\<close>
  binders taken off one by one, each body instantiated with the free variable of its binder.
\<close>

theorem introN_peels_leading_binders:
  assumes "decls (mctx s) g = Some d"
    and "eAssignment (mctx s) g = None"
    and "n \<le> leadingBinders (mdecl_type d)"
    and "\<forall>e. succeedsKeepingDecls (isClassQuick orc e)"
    and "\<forall>e. succeedsKeepingDecls (isClassExpensive orc e)"
    and "\<forall>xs e. succeedsKeepingDecls (mkLambda orc xs e)"
  shows "\<exists>fvs g' s' d'. introN orc g n names ctx s = ok (fvs, g') s'
           \<and> fvs = freshIds (ngen s) n \<and> length fvs = n \<and> distinct fvs
           \<and> decls (mctx s') g' = Some d'
           \<and> peelBinders n (mdecl_type d) fvs = Some (mdecl_type d')"
proof -
  from introN_success [of s g d n orc names ctx] assms
  obtain g' s' d' where r: "introN orc g n names ctx s = ok (freshIds (ngen s) n, g') s'"
    and d': "decls (mctx s') g' = Some d'"
    and ty: "mdecl_type d' = instantiateRevAux (map fvar (freshIds (ngen s) n)) 0
                                (nthBody n (mdecl_type d))"
    by blast
  from peelBinders_code [OF assms(3), of "freshIds (ngen s) n"] ty
  have "peelBinders n (mdecl_type d) (freshIds (ngen s) n) = Some (mdecl_type d')" by simp
  with r d' show ?thesis by (simp add: distinct_freshIds)
qed

theorem introN_peels_leading_binders_witness:
  "\<exists>g' s' d'. introN sampleOracles goal0 2 [] ctx0 (state0 tyTwo)
       = ok ([num anonymous 0, num anonymous 1], g') s'
     \<and> decls (mctx s') g' = Some d'
     \<and> mdecl_type d' = app (fvar (num anonymous 1)) (fvar (num anonymous 0))"
proof -
  have h1: "decls (mctx (state0 tyTwo)) goal0 = Some (decl0 tyTwo)"
    by (simp add: state0_def)
  have h2: "eAssignment (mctx (state0 tyTwo)) goal0 = None"
    by (simp add: state0_def)
  have h3: "2 \<le> leadingBinders (mdecl_type (decl0 tyTwo))"
    by (simp add: decl0_def tyTwo_def)
  have h4: "\<forall>e. succeedsKeepingDecls (isClassQuick sampleOracles e)"
    by (simp add: succeedsKeepingDecls_def sampleOracles_def)
  have h5: "\<forall>e. succeedsKeepingDecls (isClassExpensive sampleOracles e)"
    by (simp add: succeedsKeepingDecls_def sampleOracles_def)
  have h6: "\<forall>xs e. succeedsKeepingDecls (mkLambda sampleOracles xs e)"
    by (simp add: succeedsKeepingDecls_def sampleOracles_def)
  have ids: "freshIds (ngen (state0 tyTwo)) 2 = [num anonymous 0, num anonymous 1]"
    by (simp add: freshIds_def state0_def upt_rec numeral_2_eq_2)
  have pb: "peelBinders 2 (mdecl_type (decl0 tyTwo)) [num anonymous 0, num anonymous 1]
      = Some (app (fvar (num anonymous 1)) (fvar (num anonymous 0)))"
    by (simp add: decl0_def tyTwo_def numeral_2_eq_2 instantiate1_def instantiateRevRange_def)
  from introN_peels_leading_binders [OF h1 h2 h3 h4 h5 h6, of "[]" ctx0]
  show ?thesis unfolding ids using pb by auto
qed

text \<open>
  C7. On a declared, unassigned goal, with a closing step that succeeds and keeps the
  declared metavariables, \<^verbatim>\<open>introN\<close> at count 0 succeeds and returns the empty array
  and a new goal whose declaration has the type, the local context and the tag of the
  original goal; in the state returned the original goal is assigned.
\<close>

theorem introN_zero:
  assumes "decls (mctx s) g = Some d"
    and "eAssignment (mctx s) g = None"
    and "\<forall>xs e. succeedsKeepingDecls (mkLambda orc xs e)"
  shows "\<exists>g' s' d'. introN orc g 0 names ctx s = ok ([], g') s'
           \<and> decls (mctx s') g' = Some d'
           \<and> mdecl_type d' = mdecl_type d \<and> mdecl_lctx d' = mdecl_lctx d
           \<and> userName d' = userName d
           \<and> eAssignment (mctx s') g \<noteq> None"
proof (rule introN_lift [OF assms(1)])
  fix s0 :: State
  assume m: "mctx s0 = mctx s" and "ngen s0 = ngen s"
  let ?c = "ctx\<lparr>lctx := mdecl_lctx d, localInstances := mdecl_localInstances d\<rparr>"
  from assms m have dec: "decls (mctx s0) g = Some d" and una: "eAssignment (mctx s0) g = None"
    by simp_all
  have aux: "introNCoreAux orc g 0 (mdecl_lctx d) [] 0 names (mdecl_type d) ?c s0
      = closeGoal orc g (mdecl_type d) [] (?c\<lparr>lctx := mdecl_lctx d\<rparr>) s0"
    by (simp only: introNCoreAux_0 instantiateRevRange_empty list.size)
      (simp add: withNewLocalInstances_done)
  from closeGoal_succeeds [OF dec, of orc "mdecl_type d" "[]" "?c\<lparr>lctx := mdecl_lctx d\<rparr>"]
    assms(3)
  obtain g' s' d' where "closeGoal orc g (mdecl_type d) [] (?c\<lparr>lctx := mdecl_lctx d\<rparr>) s0
        = ok ([], g') s'"
      and "decls (mctx s') g' = Some d'" and "mdecl_type d' = mdecl_type d"
      and "mdecl_lctx d' = mdecl_lctx d" and "userName d' = userName d"
      and "eAssignment (mctx s') g \<noteq> None"
    by auto
  then show "\<exists>g' s' d'. introNCore_body orc g 0 names (mdecl_lctx d) ?c s0 = ok ([], g') s'
           \<and> decls (mctx s') g' = Some d'
           \<and> mdecl_type d' = mdecl_type d \<and> mdecl_lctx d' = mdecl_lctx d
           \<and> userName d' = userName d
           \<and> eAssignment (mctx s') g \<noteq> None"
    unfolding introNCore_body_unfold [OF dec una] aux
    by (simp add: Array_umapMAux_map)
next
  fix v and r :: "(FVarId list \<times> MVarId) Result"
  assume "\<exists>g' s' d'. r = ok ([], g') s'
           \<and> decls (mctx s') g' = Some d'
           \<and> mdecl_type d' = mdecl_type d \<and> mdecl_lctx d' = mdecl_lctx d
           \<and> userName d' = userName d
           \<and> eAssignment (mctx s') g \<noteq> None"
  then show "\<exists>g' s' d'. restoreSynthInstance v r = ok ([], g') s'
           \<and> decls (mctx s') g' = Some d'
           \<and> mdecl_type d' = mdecl_type d \<and> mdecl_lctx d' = mdecl_lctx d
           \<and> userName d' = userName d
           \<and> eAssignment (mctx s') g \<noteq> None"
    by auto
qed

theorem introN_zero_witness:
  "\<exists>g' s' d'. introN sampleOracles goal0 0 [] ctx0 (state0 tyLet) = ok ([], g') s'
     \<and> decls (mctx s') g' = Some d'
     \<and> mdecl_type d' = tyLet \<and> mdecl_lctx d' = [] \<and> userName d' = nm ''tag''
     \<and> eAssignment (mctx s') goal0 \<noteq> None"
proof -
  have h1: "decls (mctx (state0 tyLet)) goal0 = Some (decl0 tyLet)"
    by (simp add: state0_def)
  have h2: "eAssignment (mctx (state0 tyLet)) goal0 = None"
    by (simp add: state0_def)
  have h3: "\<forall>xs e. succeedsKeepingDecls (mkLambda sampleOracles xs e)"
    by (simp add: succeedsKeepingDecls_def sampleOracles_def)
  from introN_zero [OF h1 h2 h3, of "[]" ctx0]
  show ?thesis by (simp add: decl0_def)
qed

text \<open>
  C9. Under the assumptions of C1, the declaration introduced at position \<open>k\<close> carries the
  \<open>k\<close>-th supplied name when there is one and it is not the placeholder name; when the
  \<open>k\<close>-th supplied name is the placeholder, or the list has fewer than \<open>k + 1\<close> names (the
  empty list included), it carries the name that the unused-name collaborator gives for the
  binder's own name in the local context as it stands just before the declaration is added.
\<close>

theorem introN_names:
  assumes "decls (mctx s) g = Some d"
    and "eAssignment (mctx s) g = None"
    and "n \<le> leadingBinders (mdecl_type d)"
    and "\<forall>e. succeedsKeepingDecls (isClassQuick orc e)"
    and "\<forall>e. succeedsKeepingDecls (isClassExpensive orc e)"
    and "\<forall>xs e. succeedsKeepingDecls (mkLambda orc xs e)"
  shows "\<exists>fvs g' s' d'. introN orc g n names ctx s = ok (fvs, g') s'
           \<and> decls (mctx s') g' = Some d'
           \<and> length (mdecl_lctx d') = length (mdecl_lctx d) + n
           \<and> take (length (mdecl_lctx d)) (mdecl_lctx d') = mdecl_lctx d
           \<and> (\<forall>k<n. LocalDecl_userName (mdecl_lctx d' ! (length (mdecl_lctx d) + k)) =
                 (if k < length names \<and> names ! k \<noteq> mkAuxName_closed_1 then names ! k
                  else getUnusedName orc (take (length (mdecl_lctx d) + k) (mdecl_lctx d'))
                         (binderNames (mdecl_type d) ! k)))"
proof -
  let ?lc = "peelLctx orc n (mdecl_lctx d) [] 0 names (mdecl_type d) (ngen s)"
  from introN_success [of s g d n orc names ctx] assms
  obtain g' s' d' where r: "introN orc g n names ctx s = ok (freshIds (ngen s) n, g') s'"
    and d': "decls (mctx s') g' = Some d'"
    and lc: "mdecl_lctx d' = ?lc"
    by blast
  from peelLctx_ext [OF assms(3), of orc "mdecl_lctx d" "[]" 0 names "ngen s"]
  have pre: "take (length (mdecl_lctx d)) ?lc = mdecl_lctx d" by auto
  from r d' lc pre length_peelLctx [OF assms(3), of orc "mdecl_lctx d" "[]" 0 names "ngen s"]
    peelLctx_names [OF assms(3), of _ orc "mdecl_lctx d" "[]" 0 names "ngen s"]
  show ?thesis by simp
qed

theorem introN_names_witness:
  "\<exists>fvs g' s' d'. introN sampleOracles goal0 2 [nm ''h'', mkAuxName_closed_1] ctx0 (state0 tyLet)
       = ok (fvs, g') s'
     \<and> decls (mctx s') g' = Some d'
     \<and> length (mdecl_lctx d') = 2
     \<and> LocalDecl_userName (mdecl_lctx d' ! 0) = nm ''h''
     \<and> LocalDecl_userName (mdecl_lctx d' ! 1) = str (nm ''b'') ''_1''"
proof -
  have h1: "decls (mctx (state0 tyLet)) goal0 = Some (decl0 tyLet)"
    by (simp add: state0_def)
  have h2: "eAssignment (mctx (state0 tyLet)) goal0 = None"
    by (simp add: state0_def)
  have h3: "2 \<le> leadingBinders (mdecl_type (decl0 tyLet))"
    by (simp add: decl0_def tyLet_def)
  have h4: "\<forall>e. succeedsKeepingDecls (isClassQuick sampleOracles e)"
    by (simp add: succeedsKeepingDecls_def sampleOracles_def)
  have h5: "\<forall>e. succeedsKeepingDecls (isClassExpensive sampleOracles e)"
    by (simp add: succeedsKeepingDecls_def sampleOracles_def)
  have h6: "\<forall>xs e. succeedsKeepingDecls (mkLambda sampleOracles xs e)"
    by (simp add: succeedsKeepingDecls_def sampleOracles_def)
  have ph: "nm ''h'' \<noteq> mkAuxName_closed_1"
    by (simp add: nm_def mkAuxName_closed_1_def mkHole_closed_3_def)
  have un: "\<And>lc n. getUnusedName sampleOracles lc n = str n ''_1''"
    by (simp add: sampleOracles_def)
  from introN_names [OF h1 h2 h3 h4 h5 h6, of "[nm ''h'', mkAuxName_closed_1]" ctx0]
  obtain fvs g' s' d' where
    r: "introN sampleOracles goal0 2 [nm ''h'', mkAuxName_closed_1] ctx0 (state0 tyLet)
          = ok (fvs, g') s'"
    and d': "decls (mctx s') g' = Some d'"
    and len: "length (mdecl_lctx d') = length (mdecl_lctx (decl0 tyLet)) + 2"
    and nms: "\<forall>k<2. LocalDecl_userName (mdecl_lctx d' ! (length (mdecl_lctx (decl0 tyLet)) + k)) =
        (if k < length [nm ''h'', mkAuxName_closed_1]
              \<and> [nm ''h'', mkAuxName_closed_1] ! k \<noteq> mkAuxName_closed_1
         then [nm ''h'', mkAuxName_closed_1] ! k
         else getUnusedName sampleOracles
                (take (length (mdecl_lctx (decl0 tyLet)) + k) (mdecl_lctx d'))
                (binderNames (mdecl_type (decl0 tyLet)) ! k))"
    by blast
  from nms have n0: "LocalDecl_userName (mdecl_lctx d' ! 0) = nm ''h''"
    using ph by (simp add: decl0_def)
  from nms [rule_format, of 1] have n1: "LocalDecl_userName (mdecl_lctx d' ! 1) = str (nm ''b'') ''_1''"
    by (simp add: decl0_def tyLet_def un)
  from r d' len n0 n1 show ?thesis by (simp add: decl0_def)
qed

text \<open>
  C10. Let the goal be declared and unassigned, let its type have fewer leading binders
  than the count asked for, and let the class tests succeed. If the reduction of the
  remaining type (the type with its binders peeled and instantiated) yields a term that is
  not a \<^verbatim>\<open>forallE\<close>, a \<^verbatim>\<open>letE\<close> for instance, then \<^verbatim>\<open>introN\<close> fails with the
  insufficient-binders error: only a \<^verbatim>\<open>forallE\<close> resumes the peeling after a reduction.
\<close>

theorem introN_whnf_non_forall_fails:
  assumes "decls (mctx s) g = Some d"
    and "eAssignment (mctx s) g = None"
    and "leadingBinders (mdecl_type d) < n"
    and "\<forall>e. succeedsKeepingDecls (isClassQuick orc e)"
    and "\<forall>e. succeedsKeepingDecls (isClassExpensive orc e)"
    and "peelBinders (leadingBinders (mdecl_type d)) (mdecl_type d)
           (freshIds (ngen s) (leadingBinders (mdecl_type d))) = Some remaining"
    and "\<forall>c st. \<exists>e' st'. whnf orc remaining c st = ok e' st' \<and> \<not> Expr_isForall e'"
  shows "\<exists>s'. introN orc g n names ctx s = error (InsufficientBinders g) s'"
proof (rule introN_lift [OF assms(1)])
  fix s0 :: State
  assume ms: "mctx s0 = mctx s" and gs: "ngen s0 = ngen s"
  let ?c = "ctx\<lparr>lctx := mdecl_lctx d, localInstances := mdecl_localInstances d\<rparr>"
  let ?m = "leadingBinders (mdecl_type d)"
  let ?F = "map fvar (freshIds (ngen s0) ?m)"
  let ?lc = "peelLctx orc ?m (mdecl_lctx d) [] 0 names (mdecl_type d) (ngen s0)"
  from assms ms have dec: "decls (mctx s0) g = Some d" and una: "eAssignment (mctx s0) g = None"
    by simp_all
  define r where "r = n - ?m - 1"
  from assms(3) have n: "n = ?m + Suc r" unfolding r_def by arith
  from peelBinders_code [of ?m "mdecl_type d" "freshIds (ngen s) ?m"] assms(6)
  have rem: "instantiateRevAux (map fvar (freshIds (ngen s0) ?m)) 0 (nthBody ?m (mdecl_type d))
      = remaining" by (simp add: gs)
  define Q where "Q = (\<lambda>r :: (Expr list \<times> MVarId) Result. \<exists>s'. r = error (InsufficientBinders g) s')"
  have "Q (introNCoreAux orc g n (mdecl_lctx d) [] 0 names (mdecl_type d) ?c s0)"
    unfolding n introNCoreAux_runs_out [OF refl] rem
  proof (rule withNewLocalInstances_succeeds [where Q = Q])
    fix e show "succeedsKeepingDecls (isClassQuick orc e)" using assms(4) by simp
  next
    fix e show "succeedsKeepingDecls (isClassExpensive orc e)" using assms(5) by simp
  next
    fix v and r :: "(Expr list \<times> MVarId) Result"
    assume "Q r" then show "Q (restoreSynthInstance v r)" unfolding Q_def by auto
  next
    fix k assume "k < length ?F"
    then have k: "k < ?m" by simp
    from peelLctx_finds [OF le_refl k, of orc "mdecl_lctx d" "[]" 0 names "ngen s0"] k
    show "LocalContext_find (lctx (?c\<lparr>lctx := ?lc\<rparr>)) (Expr_fvarId_x21 (?F ! k)) \<noteq> None"
      by simp
  next
    fix c :: Context and st :: State
    from assms(7) obtain e' st' where "whnf orc remaining c st = ok e' st'"
      and "\<not> Expr_isForall e'" by blast
    then show "Q (case whnf orc remaining c st of
          error e st1 \<Rightarrow> error e st1
        | ok newType st1 \<Rightarrow>
            if Expr_isForall newType
            then introNCoreAux orc g r ?lc ?F ?m (drop ?m names) newType c st1
            else throwTacticEx introN_closed_2 g introN_closed_3 c st1)"
      unfolding Q_def by (simp add: throwTacticEx_def InsufficientBinders_def)
  qed
  then show "\<exists>s'. introNCore_body orc g n names (mdecl_lctx d) ?c s0
      = error (InsufficientBinders g) s'"
    unfolding introNCore_body_unfold [OF dec una] Q_def by auto
next
  fix v and r :: "(FVarId list \<times> MVarId) Result"
  assume "\<exists>s'. r = error (InsufficientBinders g) s'"
  then show "\<exists>s'. restoreSynthInstance v r = error (InsufficientBinders g) s'" by auto
qed

theorem introN_whnf_non_forall_fails_witness:
  "\<exists>s'. introN letOracles goal0 2 [] ctx0 (state0 tyOne) = error (InsufficientBinders goal0) s'"
proof -
  have h1: "decls (mctx (state0 tyOne)) goal0 = Some (decl0 tyOne)"
    by (simp add: state0_def)
  have h2: "eAssignment (mctx (state0 tyOne)) goal0 = None"
    by (simp add: state0_def)
  have h3: "leadingBinders (mdecl_type (decl0 tyOne)) < 2"
    by (simp add: decl0_def tyOne_def)
  have h4: "\<forall>e. succeedsKeepingDecls (isClassQuick letOracles e)"
    by (simp add: succeedsKeepingDecls_def letOracles_def sampleOracles_def)
  have h5: "\<forall>e. succeedsKeepingDecls (isClassExpensive letOracles e)"
    by (simp add: succeedsKeepingDecls_def letOracles_def sampleOracles_def)
  have h6: "peelBinders (leadingBinders (mdecl_type (decl0 tyOne))) (mdecl_type (decl0 tyOne))
           (freshIds (ngen (state0 tyOne)) (leadingBinders (mdecl_type (decl0 tyOne))))
        = Some (constE (nm ''N''))"
    by (simp add: decl0_def tyOne_def freshIds_def state0_def instantiate1_def
        instantiateRevRange_def)
  have h7: "\<forall>c st. \<exists>e' st'. whnf letOracles (constE (nm ''N'')) c st = ok e' st'
        \<and> \<not> Expr_isForall e'"
    by (simp add: letOracles_def sampleOracles_def)
  from introN_whnf_non_forall_fails [OF h1 h2 h3 h4 h5 h6 h7, of "[]" ctx0]
  show ?thesis .
qed

text \<open>
  C2, at the input on which the code departs from it: the goal's type is the constant
  \<^verbatim>\<open>T\<close>, which is no binder and which the reduction unfolds to
  \<^verbatim>\<open>forallE x A B\<close>, and one binder is asked for. The fallback hands the reduced type to
  \<^verbatim>\<open>introNCoreAux\<close> with the count already decreased, so the call stops at once: it
  succeeds with no identifier, the new goal still has the whole \<^verbatim>\<open>forallE\<close> as its
  type, and \<^verbatim>\<open>intro1\<close> returns the default name for want of an identifier.
\<close>

theorem introN_whnf_retry_peels_nothing:
  "resultValue (introN sampleOracles goal0 1 [] ctx0 (state0 (constE (nm ''T''))))
     = Some ([], num anonymous 0)
   \<and> map_option mdecl_type
       (decls (mctx (resultState (introN sampleOracles goal0 1 [] ctx0
          (state0 (constE (nm ''T'')))))) (num anonymous 0))
     = Some (forallE (nm ''x'') (constE (nm ''A'')) (constE (nm ''B'')) 0)
   \<and> resultValue (intro1 sampleOracles goal0 ctx0 (state0 (constE (nm ''T''))))
     = Some (anonymous, num anonymous 0)"
  by code_simp

text \<open>
  C4 fails as stated: when the closing step fails, having left the state as it found it,
  \<^verbatim>\<open>introN\<close> returns the failure with the state of that moment, in which the new goal
  metavariable is declared; it was not declared in the state given.
\<close>

theorem introN_error_state_counterexample:
  "resultError (introN failingClosure goal0 0 [] ctx0 (state0 tyOne)) = Some (oracleFailure 0)
   \<and> map_option userName (decls (mctx (state0 tyOne)) (num anonymous 0)) = None
   \<and> map_option userName
       (decls (mctx (resultState (introN failingClosure goal0 0 [] ctx0 (state0 tyOne))))
          (num anonymous 0)) = Some (nm ''tag'')"
  by code_simp

text \<open>
  C5 fails as stated on the order of events: on a goal with two binders and a count of two,
  the quick class test is called twice, and at the first call, which classifies the first
  hypothesis, the local context already holds both declarations: the second binder was
  processed before the first hypothesis was classified.
\<close>

theorem classification_after_peeling_counterexample:
  "resultValue (introN recordingOracles goal0 2 [] ctx0 (state0 tyTwo))
     = Some ([num anonymous 0, num anonymous 1], num anonymous 2)
   \<and> traceState (resultState (introN recordingOracles goal0 2 [] ctx0 (state0 tyTwo)))
     = [2, 2]"
  by code_simp

text \<open>
  C4, amended. Let the reduction and the two class tests return, on success and on failure,
  the metavariable context they were given, and let the closing step not fail. Then whenever
  \<^verbatim>\<open>introN\<close>, \<^verbatim>\<open>intro\<close> or \<^verbatim>\<open>intro1\<close> returns a failure, the metavariable context
  in the state returned is the one of the state given: no metavariable has been created and
  no assignment made. (Nothing is said of the rest of the state: the name generator keeps
  the identifiers it has minted.)
\<close>

theorem introN_error_keeps_mctx:
  assumes "\<forall>e. keepsMCtx (whnf orc e)"
    and "\<forall>e. keepsMCtx (isClassQuick orc e)"
    and "\<forall>e. keepsMCtx (isClassExpensive orc e)"
    and "\<forall>xs e c st. resultError (mkLambda orc xs e c st) = None"
  shows "errorKeepsMCtx (mctx s) (introN orc g n names ctx s)
       \<and> errorKeepsMCtx (mctx s) (intro orc g name ctx s)
       \<and> errorKeepsMCtx (mctx s) (intro1 orc g ctx s)"
proof -
  have core: "errorKeepsMCtx (mctx s) (introNCore orc g k ns ctx s)" for k ns
    by (rule introNCore_errorKeeps) (use assms in simp_all)
  from core [of n names] core [of 1 "[name]"] core [of 1 "[]"] show ?thesis
    by (simp add: introN_def intro_def intro1_def errorKeepsMCtx_def split: Result.splits)
qed

theorem introN_error_keeps_mctx_witness:
  "resultError (introN sampleOracles goal0 2 [] ctx0 (state0 tyOne))
     = Some (InsufficientBinders goal0)
   \<and> idx (ngen (resultState (introN sampleOracles goal0 2 [] ctx0 (state0 tyOne)))) = 1
   \<and> errorKeepsMCtx (mctx (state0 tyOne)) (introN sampleOracles goal0 2 [] ctx0 (state0 tyOne))
   \<and> errorKeepsMCtx (mctx (state0 tyOne)) (intro sampleOracles goal0 (nm ''h'') ctx0 (state0 tyOne))
   \<and> errorKeepsMCtx (mctx (state0 tyOne)) (intro1 sampleOracles goal0 ctx0 (state0 tyOne))"
proof -
  have h1: "\<forall>e. keepsMCtx (whnf sampleOracles e)"
    by (simp add: keepsMCtx_def sampleOracles_def resultState_def)
  have h2: "\<forall>e. keepsMCtx (isClassQuick sampleOracles e)"
    by (simp add: keepsMCtx_def sampleOracles_def resultState_def)
  have h3: "\<forall>e. keepsMCtx (isClassExpensive sampleOracles e)"
    by (simp add: keepsMCtx_def sampleOracles_def resultState_def)
  have h4: "\<forall>xs e c st. resultError (mkLambda sampleOracles xs e c st) = None"
    by (simp add: sampleOracles_def resultError_def)
  have e: "resultError (introN sampleOracles goal0 2 [] ctx0 (state0 tyOne))
      = Some (InsufficientBinders goal0)"
    by code_simp
  have i: "idx (ngen (resultState (introN sampleOracles goal0 2 [] ctx0 (state0 tyOne)))) = 1"
    by code_simp
  from introN_error_keeps_mctx [OF h1 h2 h3 h4, of "state0 tyOne" goal0 2 "[]" ctx0 "nm ''h''"]
    e i show ?thesis by simp
qed

text \<open>
  C5, amended. With class tests that answer from the type alone, the pass
  \<^verbatim>\<open>withNewLocalInstances\<close> over the hypotheses \<open>fvars\<close> from index \<open>i\<close> on (all of them
  declared in the local context) does this: a hypothesis whose type the quick test calls
  no class, or calls unknown and the expensive test calls no class, changes nothing; every
  other hypothesis is registered, in order, as a local instance with the class name the
  test gave; and if at least one was registered the continuation runs with those local
  instances appended and with \<^verbatim>\<open>synthInstance\<close> empty, and the saved memo is put back
  when it returns. The pass is not run between one binder and the next: when the type has
  the \<open>n\<close> binders asked for, all \<open>n\<close> are peeled first and one pass over all the new
  hypotheses runs before the new goal is created; and when the type is no binder, the pass
  runs before the reduction. So whatever runs after the pass within the same call sees the
  new instances.
\<close>

theorem classification_pass:
  assumes "classifierPure orc q x"
    and "\<forall>k. i \<le> k \<and> k < length fvars \<longrightarrow>
           LocalContext_find (lctx ctx) (Expr_fvarId_x21 (fvars ! k)) \<noteq> None"
  shows "withNewLocalInstances orc fvars i kont ctx s =
       (if newInstances q x (lctx ctx) fvars i = [] then kont ctx s
        else restoreSynthInstance (synthInstance (cache s))
               (kont (ctx\<lparr>localInstances := localInstances ctx @ newInstances q x (lctx ctx) fvars i\<rparr>)
                  (resetSynthInstance s)))
     \<and> (n \<le> leadingBinders ty \<longrightarrow>
          introNCoreAux orc g n lc fvs j names ty c st =
            withNewLocalInstances orc (fvs @ map fvar (freshIds (ngen st) n)) j
              (closeGoal orc g
                 (instantiateRevRange (nthBody n ty) j
                    (length (fvs @ map fvar (freshIds (ngen st) n)))
                    (fvs @ map fvar (freshIds (ngen st) n)))
                 (fvs @ map fvar (freshIds (ngen st) n)))
              (c\<lparr>lctx := peelLctx orc n lc fvs j names ty (ngen st)\<rparr>) (advanceNGen n st))
     \<and> (leadingBinders ty = 0 \<longrightarrow>
          introNCoreAux orc g (Suc n) lc fvs j names ty c st =
            withNewLocalInstances orc fvs j
              (\<lambda>c' st'. case whnf orc (instantiateRevRange ty j (length fvs) fvs) c' st' of
                          error e st1 \<Rightarrow> error e st1
                        | ok newType st1 \<Rightarrow>
                            if Expr_isForall newType
                            then introNCoreAux orc g n lc fvs (length fvs) names newType c' st1
                            else throwTacticEx introN_closed_2 g introN_closed_3 c' st1)
              (c\<lparr>lctx := lc\<rparr>) st)"
proof (intro conjI impI)
  show "withNewLocalInstances orc fvars i kont ctx s =
       (if newInstances q x (lctx ctx) fvars i = [] then kont ctx s
        else restoreSynthInstance (synthInstance (cache s))
               (kont (ctx\<lparr>localInstances := localInstances ctx @ newInstances q x (lctx ctx) fvars i\<rparr>)
                  (resetSynthInstance s)))"
    by (rule withNewLocalInstances_pass [OF assms(1)]) (use assms(2) in blast)
next
  assume le: "n \<le> leadingBinders ty"
  from introNCoreAux_peel [OF le, of orc g 0 lc fvs j names c st]
  show "introNCoreAux orc g n lc fvs j names ty c st =
            withNewLocalInstances orc (fvs @ map fvar (freshIds (ngen st) n)) j
              (closeGoal orc g
                 (instantiateRevRange (nthBody n ty) j
                    (length (fvs @ map fvar (freshIds (ngen st) n)))
                    (fvs @ map fvar (freshIds (ngen st) n)))
                 (fvs @ map fvar (freshIds (ngen st) n)))
              (c\<lparr>lctx := peelLctx orc n lc fvs j names ty (ngen st)\<rparr>) (advanceNGen n st)"
    by (simp only: introNCoreAux_0 add_0_right)
next
  assume "leadingBinders ty = 0"
  then show "introNCoreAux orc g (Suc n) lc fvs j names ty c st =
            withNewLocalInstances orc fvs j
              (\<lambda>c' st'. case whnf orc (instantiateRevRange ty j (length fvs) fvs) c' st' of
                          error e st1 \<Rightarrow> error e st1
                        | ok newType st1 \<Rightarrow>
                            if Expr_isForall newType
                            then introNCoreAux orc g n lc fvs (length fvs) names newType c' st1
                            else throwTacticEx introN_closed_2 g introN_closed_3 c' st1)
              (c\<lparr>lctx := lc\<rparr>) st"
    by (rule introNCoreAux_default)
qed

theorem classification_pass_witness:
  "withNewLocalInstances sampleOracles fvarsThree 0 observe (ctx0\<lparr>lctx := lctxThree\<rparr>)
       (state0 tyOne)
     = ok ([\<lparr>className = nm ''C'', instFVar = fvar (nm ''a'')\<rparr>,
            \<lparr>className = nm ''U'', instFVar = fvar (nm ''b'')\<rparr>], []) (state0 tyOne)
   \<and> introNCoreAux sampleOracles goal0 2 [] [] 0 [] tyTwo ctx0 (state0 tyTwo) =
       withNewLocalInstances sampleOracles ([] @ map fvar (freshIds (ngen (state0 tyTwo)) 2)) 0
         (closeGoal sampleOracles goal0
            (instantiateRevRange (nthBody 2 tyTwo) 0
               (length ([] @ map fvar (freshIds (ngen (state0 tyTwo)) 2)))
               ([] @ map fvar (freshIds (ngen (state0 tyTwo)) 2)))
            ([] @ map fvar (freshIds (ngen (state0 tyTwo)) 2)))
         (ctx0\<lparr>lctx := peelLctx sampleOracles 2 [] [] 0 [] tyTwo (ngen (state0 tyTwo))\<rparr>)
         (advanceNGen 2 (state0 tyTwo))
   \<and> introNCoreAux sampleOracles goal0 (Suc 2) [] [] 0 [] (constE (nm ''N'')) ctx0 (state0 tyTwo) =
       withNewLocalInstances sampleOracles [] 0
         (\<lambda>c' st'. case whnf sampleOracles (instantiateRevRange (constE (nm ''N'')) 0 (length ([] :: Expr list)) []) c' st' of
                     error e st1 \<Rightarrow> error e st1
                   | ok newType st1 \<Rightarrow>
                       if Expr_isForall newType
                       then introNCoreAux sampleOracles goal0 2 [] [] (length ([] :: Expr list)) [] newType c' st1
                       else throwTacticEx introN_closed_2 goal0 introN_closed_3 c' st1)
         (ctx0\<lparr>lctx := []\<rparr>) (state0 tyTwo)"
proof -
  have h1: "classifierPure sampleOracles sampleQuick sampleExpensive"
    by (simp add: classifierPure_def sampleOracles_def sampleQuick_def sampleExpensive_def)
  have h2: "\<forall>k. 0 \<le> k \<and> k < length fvarsThree \<longrightarrow>
      LocalContext_find (lctx (ctx0\<lparr>lctx := lctxThree\<rparr>)) (Expr_fvarId_x21 (fvarsThree ! k)) \<noteq> None"
  proof (intro allI impI)
    fix k assume "0 \<le> k \<and> k < length fvarsThree"
    then have "k = 0 \<or> k = 1 \<or> k = 2" by (auto simp add: fvarsThree_def)
    then show "LocalContext_find (lctx (ctx0\<lparr>lctx := lctxThree\<rparr>))
        (Expr_fvarId_x21 (fvarsThree ! k)) \<noteq> None"
      by (auto simp add: fvarsThree_def lctxThree_def LocalContext_find_def nm_def)
  qed
  have h3: "2 \<le> leadingBinders tyTwo" by (simp add: tyTwo_def)
  have h4: "leadingBinders (constE (nm ''N'')) = 0" by simp
  have ni: "newInstances sampleQuick sampleExpensive lctxThree fvarsThree 0
      = [\<lparr>className = nm ''C'', instFVar = fvar (nm ''a'')\<rparr>,
         \<lparr>className = nm ''U'', instFVar = fvar (nm ''b'')\<rparr>]"
    by code_simp
  from classification_pass [OF h1 h2, of observe "state0 tyOne" 2 tyTwo goal0 "[]" "[]" 0 "[]"
      ctx0 "state0 tyTwo"] h3
  have a: "withNewLocalInstances sampleOracles fvarsThree 0 observe (ctx0\<lparr>lctx := lctxThree\<rparr>)
       (state0 tyOne)
     = ok ([\<lparr>className = nm ''C'', instFVar = fvar (nm ''a'')\<rparr>,
            \<lparr>className = nm ''U'', instFVar = fvar (nm ''b'')\<rparr>], []) (state0 tyOne)"
    and b: "introNCoreAux sampleOracles goal0 2 [] [] 0 [] tyTwo ctx0 (state0 tyTwo) =
       withNewLocalInstances sampleOracles ([] @ map fvar (freshIds (ngen (state0 tyTwo)) 2)) 0
         (closeGoal sampleOracles goal0
            (instantiateRevRange (nthBody 2 tyTwo) 0
               (length ([] @ map fvar (freshIds (ngen (state0 tyTwo)) 2)))
               ([] @ map fvar (freshIds (ngen (state0 tyTwo)) 2)))
            ([] @ map fvar (freshIds (ngen (state0 tyTwo)) 2)))
         (ctx0\<lparr>lctx := peelLctx sampleOracles 2 [] [] 0 [] tyTwo (ngen (state0 tyTwo))\<rparr>)
         (advanceNGen 2 (state0 tyTwo))"
    by (simp_all add: ni observe_def ctx0_def del: introNCoreAux.simps)
  have c: "introNCoreAux sampleOracles goal0 (Suc 2) [] [] 0 [] (constE (nm ''N'')) ctx0 (state0 tyTwo) =
       withNewLocalInstances sampleOracles [] 0
         (\<lambda>c' st'. case whnf sampleOracles (instantiateRevRange (constE (nm ''N'')) 0 (length ([] :: Expr list)) []) c' st' of
                     error e st1 \<Rightarrow> error e st1
                   | ok newType st1 \<Rightarrow>
                       if Expr_isForall newType
                       then introNCoreAux sampleOracles goal0 2 [] [] (length ([] :: Expr list)) [] newType c' st1
                       else throwTacticEx introN_closed_2 goal0 introN_closed_3 c' st1)
         (ctx0\<lparr>lctx := []\<rparr>) (state0 tyTwo)"
    by (rule classification_pass [OF h1 h2, of observe "state0 tyOne" 2 "constE (nm ''N'')" goal0
      "[]" "[]" 0 "[]" ctx0 "state0 tyTwo", THEN conjunct2, THEN conjunct2, THEN mp, OF h4])
  from a b c show ?thesis by (intro conjI)
qed

end
